theory Spec2Isabelle
  imports Complex_Main "HOL-Library.AList"
begin

section \<open>Errors and tensors\<close>

text \<open>
  The exceptions the nodes of \<^verbatim>\<open>ic_light_nodes.py\<close> raise or let through. \<open>HostError\<close>
  stands for any exception of the host (the delegated encode, a wrapper stage).
\<close>

datatype error = KeyError | TypeError | RuntimeError | AssertionError
  | ZeroDivisionError | HostError string

datatype device = CPU | CUDA nat

datatype dtype = Float16 | BFloat16 | Float32 | Float64

text \<open>
  A rank-4 \<^verbatim>\<open>torch.Tensor\<close>: where it lives, its precision, and its entries as nested
  lists, outermost axis first. \<open>length (vals x)\<close> is \<^verbatim>\<open>x.shape[0]\<close>.
\<close>

record 'a tensor =
  device :: device
  dtype :: dtype
  vals :: "'a list list list list"

definition has_shape3 :: "nat \<Rightarrow> nat \<Rightarrow> nat \<Rightarrow> 'a list list list \<Rightarrow> bool" where
  "has_shape3 n1 n2 n3 v \<longleftrightarrow>
     length v = n1 \<and>
     list_all (\<lambda>a. length a = n2 \<and> list_all (\<lambda>r. length r = n3) a) v"

definition has_shape :: "nat \<Rightarrow> nat \<Rightarrow> nat \<Rightarrow> nat \<Rightarrow> 'a list list list list \<Rightarrow> bool" where
  "has_shape n1 n2 n3 n4 v \<longleftrightarrow>
     length v = n1 \<and> list_all (has_shape3 n2 n3 n4) v"

text \<open>\<^verbatim>\<open>x * s\<close> for a Python scalar \<open>s\<close>: elementwise, device and dtype kept.\<close>

definition mul_scalar :: "'a::times tensor \<Rightarrow> 'a \<Rightarrow> 'a tensor" where
  "mul_scalar x s = x\<lparr>vals := map (map (map (map (\<lambda>v. v * s)))) (vals x)\<rparr>"

text \<open>\<^verbatim>\<open>x.to(d)\<close> with a device only: the entries and the dtype are kept.\<close>

definition to_device :: "'a tensor \<Rightarrow> device \<Rightarrow> 'a tensor" where
  "to_device x d = x\<lparr>device := d\<rparr>"

text \<open>
  \<^verbatim>\<open>torch.cat(ts, dim=0)\<close> and \<^verbatim>\<open>torch.cat(ts, dim=1)\<close> on the entries of the operands.
  An empty operand list raises; along axis 1 the operands must agree on axis 0. In this
  program the operands are slices or copies of one tensor, so the inner extents, the
  device and the dtype agree and are carried by the caller.
\<close>

definition torch_cat_dim0 :: "'b list list \<Rightarrow> error + 'b list" where
  "torch_cat_dim0 ts = (if ts = [] then Inl RuntimeError else Inr (concat ts))"

definition torch_cat_dim1 :: "'b list list list \<Rightarrow> error + 'b list list" where
  "torch_cat_dim1 ts =
     (case ts of
        [] \<Rightarrow> Inl RuntimeError
      | t # rest \<Rightarrow>
          if list_all (\<lambda>u. length u = length t) rest
          then Inr (map (\<lambda>i. concat (map (\<lambda>u. u ! i) ts)) [0..<length t])
          else Inl RuntimeError)"

section \<open>ICLight.apply: the conditioning tensor\<close>

text \<open>
  Lines 96 to 98:
  \<^verbatim>\<open>concat_conds = c_concat["samples"] * scale_factor\<close>, then
  \<^verbatim>\<open>torch.cat([c[None, ...] for c in concat_conds], dim=1)\<close>.
  Iterating a tensor yields its slices along axis 0; \<^verbatim>\<open>c[None, ...]\<close> is \<open>[c]\<close>.
\<close>

definition concat_conds_of :: "'a::times tensor \<Rightarrow> 'a \<Rightarrow> error + 'a tensor" where
  "concat_conds_of samples scale_factor =
     (let concat_conds = mul_scalar samples scale_factor
      in case torch_cat_dim1 (map (\<lambda>c. [c]) (vals concat_conds)) of
           Inl e \<Rightarrow> Inl e
         | Inr v \<Rightarrow> Inr (concat_conds\<lparr>vals := v\<rparr>))"

section \<open>ICLight.apply: the forward wrapper\<close>

text \<open>
  A value of the conditioning mapping \<^verbatim>\<open>params["c"]\<close>: a tensor, or anything else the
  host keeps there.
\<close>

datatype ('a, 'o) cval = TensorVal "'a tensor" | OtherVal 'o

text \<open>\<^verbatim>\<open>UnetParams\<close>, lines 12 to 16; the field \<^verbatim>\<open>c\<close> is \<open>cdict\<close> here.\<close>

record ('a, 'o) unet_params =
  input :: "'a tensor"
  timestep :: "'a list"
  cdict :: "string \<rightharpoonup> ('a, 'o) cval"
  cond_or_uncond :: "nat list"

text \<open>
  The native forward function and a wrapper stage. Both act on the state \<open>'st\<close> of the
  host during a forward call and return a result or an exception with the state they
  leave. The native forward takes \<^verbatim>\<open>x\<close>, \<^verbatim>\<open>t\<close> and the remaining keyword arguments.
\<close>

type_synonym ('a, 'o, 'st, 'r) unet_apply =
  "'a tensor \<Rightarrow> 'a list \<Rightarrow> (string \<rightharpoonup> ('a, 'o) cval) \<Rightarrow> 'st \<Rightarrow> (error + 'r) \<times> 'st"

type_synonym ('a, 'o, 'st, 'r) wrapper =
  "('a, 'o, 'st, 'r) unet_apply \<Rightarrow> ('a, 'o) unet_params \<Rightarrow> 'st \<Rightarrow> (error + 'r) \<times> 'st"

text \<open>
  \<^verbatim>\<open>apply_c_concat\<close>, lines 100 to 110, closed over \<^verbatim>\<open>concat_conds\<close>:
  \<^verbatim>\<open>torch.cat([concat_conds.to(sample.device)] * (sample.shape[0] // concat_conds.shape[0]), dim=0)\<close>
  stored under \<^verbatim>\<open>params["c"]["c_concat"]\<close>. Python's \<^verbatim>\<open>//\<close> raises on a zero divisor, and
  \<^verbatim>\<open>torch.cat\<close> on an empty list.
\<close>

definition apply_c_concat ::
  "'a tensor \<Rightarrow> ('a, 'o) unet_params \<Rightarrow> error + ('a, 'o) unet_params" where
  "apply_c_concat concat_conds params =
     (let sample = input params;
          moved = to_device concat_conds (device sample)
      in if length (vals concat_conds) = 0 then Inl ZeroDivisionError
         else
           case torch_cat_dim0
                  (replicate (length (vals sample) div length (vals concat_conds)) (vals moved)) of
             Inl e \<Rightarrow> Inl e
           | Inr v \<Rightarrow>
               Inr (params\<lparr>cdict := (cdict params)(''c_concat'' \<mapsto> TensorVal (moved\<lparr>vals := v\<rparr>))\<rparr>))"

text \<open>
  A callable stored in the wrapper slot: a Python function of two parameters, with the
  name of its second parameter and its body. The host calls a stage with two positional
  arguments, so the name plays no part there; a call that passes the second argument by
  keyword binds it only when the name is that keyword, and raises \<^verbatim>\<open>TypeError\<close>
  otherwise.
\<close>

datatype ('a, 'o, 'st, 'r) stage =
  Stage (second_param: string) (body: "('a, 'o, 'st, 'r) wrapper")

definition call_params_keyword :: "('a, 'o, 'st, 'r) stage \<Rightarrow> ('a, 'o, 'st, 'r) wrapper" where
  "call_params_keyword w unet_apply params st =
     (if second_param w = ''params'' then body w unet_apply params st
      else (Inl TypeError, st))"

text \<open>
  \<^verbatim>\<open>unet_dummy_apply\<close>, lines 112 to 115:
  \<^verbatim>\<open>unet_apply(x=params["input"], t=params["timestep"], **params["c"])\<close>. Spreading a
  mapping that has a key \<^verbatim>\<open>x\<close> or \<^verbatim>\<open>t\<close> beside the keywords \<^verbatim>\<open>x=\<close> and \<^verbatim>\<open>t=\<close> raises
  \<^verbatim>\<open>TypeError\<close> before the native forward is entered.
\<close>

definition unet_dummy_apply :: "('a, 'o, 'st, 'r) wrapper" where
  "unet_dummy_apply unet_apply params st =
     (if cdict params ''x'' \<noteq> None \<or> cdict params ''t'' \<noteq> None then (Inl TypeError, st)
      else unet_apply (input params) (timestep params) (cdict params) st)"

text \<open>
  \<^verbatim>\<open>wrapper_func\<close>, lines 122 and 123, closed over \<^verbatim>\<open>concat_conds\<close> and
  \<^verbatim>\<open>existing_wrapper\<close>:
  \<^verbatim>\<open>existing_wrapper(unet_apply, params=apply_c_concat(params))\<close>. The argument is
  evaluated first, and an exception there leaves before the existing wrapper is called;
  the existing wrapper receives it under the keyword \<^verbatim>\<open>params\<close>.
\<close>

definition wrapper_func ::
  "'a tensor \<Rightarrow> ('a, 'o, 'st, 'r) stage \<Rightarrow> ('a, 'o, 'st, 'r) wrapper" where
  "wrapper_func concat_conds existing_wrapper unet_apply params st =
     (case apply_c_concat concat_conds params of
        Inl e \<Rightarrow> (Inl e, st)
      | Inr params' \<Rightarrow> call_params_keyword existing_wrapper unet_apply params' st)"

text \<open>
  A native forward that counts its invocations in the first component of the state:
  the call counter of the spec's composition test.
\<close>

definition counted ::
  "('a, 'o, 'st, 'r) unet_apply \<Rightarrow> ('a, 'o, nat \<times> 'st, 'r) unet_apply" where
  "counted unet_apply x t kw = (\<lambda>(n, st). case unet_apply x t kw st of (r, st') \<Rightarrow> (r, (Suc n, st')))"

text \<open>The tensor under \<^verbatim>\<open>c_concat\<close> of a call's params, when there is one.\<close>

definition c_concat_of :: "('a, 'o) unet_params \<Rightarrow> 'a tensor option" where
  "c_concat_of params =
     (case cdict params ''c_concat'' of Some (TensorVal t) \<Rightarrow> Some t | _ \<Rightarrow> None)"

section \<open>ICLight.apply: model handles and patches\<close>

text \<open>
  A weight tensor of a state dict: its placement, its precision and its entries, whose
  rank varies from parameter to parameter (\<open>'w\<close>).
\<close>

record 'w weight =
  wdevice :: device
  wdtype :: dtype
  wdata :: 'w

text \<open>
  The value \<^verbatim>\<open>("diff", [tensor, {"pad_weight": flag}])\<close> of one entry of the patches
  dictionary, lines 134 to 139.
\<close>

datatype 'w patch = Patch (kind: string) (delta: "'w weight") (pad_weight: bool)

text \<open>
  \<^verbatim>\<open>BaseModel\<close>: \<^verbatim>\<open>model_config.latent_format.scale_factor\<close> and
  \<^verbatim>\<open>diffusion_model.state_dict()\<close>, a dictionary in insertion order.
\<close>

record ('a, 'w) base_model =
  scale_factor :: 'a
  diffusion_model :: "(string \<times> 'w weight) list"

type_synonym addr = nat

text \<open>
  \<^verbatim>\<open>ModelPatcher\<close>: a reference to the shared \<^verbatim>\<open>BaseModel\<close>, the overlay of registered
  patches, and the slot \<^verbatim>\<open>model_options["model_function_wrapper"]\<close>.
\<close>

record ('a, 'o, 'st, 'r, 'w) model_patcher =
  model :: addr
  patches :: "(string \<times> 'w patch) list"
  model_function_wrapper :: "('a, 'o, 'st, 'r) stage option"

text \<open>
  The object store: model handles and base models by address, and the next address an
  allocation takes.
\<close>

record ('a, 'o, 'st, 'r, 'w) heap =
  patchers :: "addr \<Rightarrow> ('a, 'o, 'st, 'r, 'w) model_patcher"
  base_models :: "addr \<Rightarrow> ('a, 'w) base_model"
  next_addr :: addr

text \<open>
  Modelled from the spec: the host's \<^verbatim>\<open>ModelPatcher.clone\<close>,
  \<^verbatim>\<open>set_model_unet_function_wrapper\<close> and \<^verbatim>\<open>add_patches\<close> are not part of this
  repository. Sections 3 and 6 of the spec give their contract: a clone is a new handle
  with an independent overlay (patch list, wrapper slot) over the shared base model; the
  wrapper slot is a single mutable slot; the overlay is append-only and a batch of patches
  is registered as it is, applied lazily later.
\<close>

definition clone ::
  "('a, 'o, 'st, 'r, 'w) heap \<Rightarrow> addr \<Rightarrow> addr \<times> ('a, 'o, 'st, 'r, 'w) heap" where
  "clone h a =
     (next_addr h, h\<lparr>patchers := (patchers h)(next_addr h := patchers h a),
                     next_addr := Suc (next_addr h)\<rparr>)"

definition set_model_unet_function_wrapper ::
  "('a, 'o, 'st, 'r, 'w) heap \<Rightarrow> addr \<Rightarrow> ('a, 'o, 'st, 'r) stage \<Rightarrow> ('a, 'o, 'st, 'r, 'w) heap" where
  "set_model_unet_function_wrapper h a w =
     h\<lparr>patchers := (patchers h)(a := (patchers h a)\<lparr>model_function_wrapper := Some w\<rparr>)\<rparr>"

definition add_patches ::
  "('a, 'o, 'st, 'r, 'w) heap \<Rightarrow> addr \<Rightarrow> (string \<times> 'w patch) list \<Rightarrow> ('a, 'o, 'st, 'r, 'w) heap" where
  "add_patches h a ps =
     h\<lparr>patchers := (patchers h)(a := (patchers h a)\<lparr>patches := patches (patchers h a) @ ps\<rparr>)\<rparr>"

text \<open>
  What \<^verbatim>\<open>comfy.model_management\<close> answers for \<^verbatim>\<open>get_torch_device()\<close> and
  \<^verbatim>\<open>unet_dtype()\<close>, and how \<^verbatim>\<open>Tensor.to\<close> converts the entries of a weight from one
  dtype to another.
\<close>

record 'w env =
  torch_device :: device
  unet_dtype :: dtype
  cast :: "dtype \<Rightarrow> dtype \<Rightarrow> 'w \<Rightarrow> 'w"

text \<open>\<^verbatim>\<open>value.to(dtype=dtype, device=device)\<close>, line 128.\<close>

definition weight_to :: "'w env \<Rightarrow> 'w weight \<Rightarrow> 'w weight" where
  "weight_to env v =
     \<lparr>wdevice = torch_device env, wdtype = unet_dtype env,
      wdata = cast env (wdtype v) (unet_dtype env) (wdata v)\<rparr>"

text \<open>
  A dictionary comprehension: the items are stored one by one, a repeated key keeps its
  place and takes the later value.
\<close>

definition dict_of_items :: "('k \<times> 'v) list \<Rightarrow> ('k \<times> 'v) list" where
  "dict_of_items items = fold (\<lambda>(k, v) d. AList.update k v d) items []"

text \<open>
  Lines 127 to 130, the auxiliary state dict moved to the working device and dtype, and
  lines 132 to 141, the patches dictionary. Iterating the keys and reading
  \<^verbatim>\<open>ic_model_state_dict[key]\<close> is iterating the items.
\<close>

definition ic_model_state_dict_of :: "'w env \<Rightarrow> (string \<times> 'w weight) list \<Rightarrow> (string \<times> 'w weight) list" where
  "ic_model_state_dict_of env sd = dict_of_items (map (\<lambda>(key, value). (key, weight_to env value)) sd)"

definition patches_of :: "(string \<times> 'w weight) list \<Rightarrow> (string \<times> 'w patch) list" where
  "patches_of ic_model_state_dict =
     dict_of_items
       (map (\<lambda>(key, value).
               (''diffusion_model.'' @ key,
                Patch ''diff'' value (key = ''input_blocks.0.0.weight'')))
          ic_model_state_dict)"

text \<open>
  \<^verbatim>\<open>ICLight.apply\<close>, lines 79 to 150, on the object store. The result is the exception
  raised or the address of the returned handle, with the store the call leaves. Clearing
  the temporary dictionary and trimming the allocator's cache (lines 144 to 148) change
  neither a handle nor a base model.
\<close>

definition ICLight_apply ::
  "'w env \<Rightarrow> ('a::times, 'o, 'st, 'r, 'w) heap \<Rightarrow> addr \<Rightarrow> addr \<Rightarrow> (string \<rightharpoonup> 'a tensor) \<Rightarrow>
   (error + addr) \<times> ('a, 'o, 'st, 'r, 'w) heap" where
  "ICLight_apply env h model_ref ic_model c_concat =
     (case c_concat ''samples'' of
        None \<Rightarrow> (Inl KeyError, h)
      | Some samples \<Rightarrow>
          (case clone h model_ref of
             (work_model, h1) \<Rightarrow>
               let base = base_models h1 (model (patchers h1 work_model))
               in case concat_conds_of samples (scale_factor base) of
                    Inl e \<Rightarrow> (Inl e, h1)
                  | Inr concat_conds \<Rightarrow>
                      let existing_wrapper =
                            (case model_function_wrapper (patchers h1 work_model) of
                               None \<Rightarrow> Stage ''params'' unet_dummy_apply
                             | Some w \<Rightarrow> w);
                          h2 = set_model_unet_function_wrapper h1 work_model
                                 (Stage ''params'' (wrapper_func concat_conds existing_wrapper));
                          ic_model_state_dict =
                            ic_model_state_dict_of env
                              (diffusion_model (base_models h2 (model (patchers h2 ic_model))));
                          h3 = add_patches h2 work_model (patches_of ic_model_state_dict)
                      in (Inr work_model, h3)))"

text \<open>
  Modelled from the spec: the host's forward call on a handle, once per denoising step,
  is not part of this repository. By section 4.2 of the spec the stage in the wrapper
  slot is called with the native forward and the call's params, as two positional
  arguments; with an empty slot the native forward is invoked with the call's tensors
  and the conditioning mapping as keyword arguments.
\<close>

definition forward_call ::
  "('a, 'o, 'st, 'r, 'w) heap \<Rightarrow> addr \<Rightarrow> ('a, 'o, 'st, 'r) wrapper" where
  "forward_call h a unet_apply params st =
     (case model_function_wrapper (patchers h a) of
        None \<Rightarrow> unet_dummy_apply unet_apply params st
      | Some w \<Rightarrow> body w unet_apply params st)"

section \<open>VAEEncodeArgMax.encode\<close>

datatype first_stage_kind = AutoencoderKL | OtherFirstStage

text \<open>
  A \<^verbatim>\<open>VAE\<close>: the class of \<^verbatim>\<open>first_stage_model\<close>, the flag
  \<^verbatim>\<open>first_stage_model.regularization.sample\<close>, and the rest of its state.
\<close>

record 'x vae =
  first_stage_model :: first_stage_kind
  regularization_sample :: bool
  vae_rest :: 'x

text \<open>
  Lines 22 to 33. \<open>super_encode\<close> is \<^verbatim>\<open>VAEEncode.encode\<close> of the host: on the VAE and the
  pixels it returns its result or raises, and leaves the VAE in some state. The
  \<^verbatim>\<open>finally\<close> clause runs on both exits.
\<close>

definition encode ::
  "('x vae \<Rightarrow> 'p \<Rightarrow> (error + 'r) \<times> 'x vae) \<Rightarrow> 'x vae \<Rightarrow> 'p \<Rightarrow> (error + 'r) \<times> 'x vae" where
  "encode super_encode v pixels =
     (if first_stage_model v \<noteq> AutoencoderKL then (Inl AssertionError, v)
      else
        let original_sample_mode = regularization_sample v
        in case super_encode (v\<lparr>regularization_sample := False\<rparr>) pixels of
             (ret, v') \<Rightarrow> (ret, v'\<lparr>regularization_sample := original_sample_mode\<rparr>))"

section \<open>ICLightApplyMaskGrey.apply_mask\<close>

text \<open>
  The \<^verbatim>\<open>alpha\<close> argument: not a tensor, or a tensor of rank 3 or 4, the ranks a
  \<^verbatim>\<open>MASK\<close> of the host has.
\<close>

datatype 'a alpha_arg = NotATensor | Alpha3 "'a list list list" | Alpha4 "'a list list list list"

text \<open>
  The entries of a floating point tensor: a finite value, an infinity, or not a number.
  The two zeros of a format compare equal and are the one value \<open>Finite 0\<close> here.
\<close>

datatype fval = Finite real | PInf | NInf | NaN

text \<open>
  The rounding of the tensors' format: what the exact result of an operation on finite
  values becomes, a finite value of the format or, on overflow, an infinity.
\<close>

type_synonym rounding = "real \<Rightarrow> fval"

text \<open>
  IEEE 754 negation, multiplication, addition and subtraction, as torch computes them
  entry by entry: not a number is contagious, an infinity times zero and the sum of
  opposite infinities are not a number, and the result on finite values is rounded.
\<close>

fun fneg :: "fval \<Rightarrow> fval" where
  "fneg (Finite x) = Finite (- x)"
| "fneg PInf = NInf"
| "fneg NInf = PInf"
| "fneg NaN = NaN"

fun fmul :: "rounding \<Rightarrow> fval \<Rightarrow> fval \<Rightarrow> fval" where
  "fmul rnd NaN _ = NaN"
| "fmul rnd _ NaN = NaN"
| "fmul rnd (Finite x) (Finite y) = rnd (x * y)"
| "fmul rnd (Finite x) PInf = (if x = 0 then NaN else if 0 < x then PInf else NInf)"
| "fmul rnd (Finite x) NInf = (if x = 0 then NaN else if 0 < x then NInf else PInf)"
| "fmul rnd PInf (Finite y) = (if y = 0 then NaN else if 0 < y then PInf else NInf)"
| "fmul rnd NInf (Finite y) = (if y = 0 then NaN else if 0 < y then NInf else PInf)"
| "fmul rnd PInf PInf = PInf"
| "fmul rnd PInf NInf = NInf"
| "fmul rnd NInf PInf = NInf"
| "fmul rnd NInf NInf = PInf"

fun fadd :: "rounding \<Rightarrow> fval \<Rightarrow> fval \<Rightarrow> fval" where
  "fadd rnd NaN _ = NaN"
| "fadd rnd _ NaN = NaN"
| "fadd rnd (Finite x) (Finite y) = rnd (x + y)"
| "fadd rnd (Finite x) PInf = PInf"
| "fadd rnd (Finite x) NInf = NInf"
| "fadd rnd PInf (Finite y) = PInf"
| "fadd rnd NInf (Finite y) = NInf"
| "fadd rnd PInf PInf = PInf"
| "fadd rnd NInf NInf = NInf"
| "fadd rnd PInf NInf = NaN"
| "fadd rnd NInf PInf = NaN"

definition fsub :: "rounding \<Rightarrow> fval \<Rightarrow> fval \<Rightarrow> fval" where
  "fsub rnd a b = fadd rnd a (fneg b)"

fun collect :: "(error + 'b) list \<Rightarrow> error + 'b list" where
  "collect [] = Inr []"
| "collect (Inl e # _) = Inl e"
| "collect (Inr x # rs) = (case collect rs of Inl e \<Rightarrow> Inl e | Inr xs \<Rightarrow> Inr (x # xs))"

text \<open>
  One axis of torch's broadcasting of a binary operation: equal extents pair up, an
  extent of 1 is repeated, anything else raises.
\<close>

definition broadcast :: "('x \<Rightarrow> 'y \<Rightarrow> error + 'z) \<Rightarrow> 'x list \<Rightarrow> 'y list \<Rightarrow> error + 'z list" where
  "broadcast f xs ys =
     (if length xs = length ys then collect (map2 f xs ys)
      else if length xs = 1 then collect (map (f (hd xs)) ys)
      else if length ys = 1 then collect (map (\<lambda>x. f x (hd ys)) xs)
      else Inl RuntimeError)"

definition broadcast4 ::
  "('a \<Rightarrow> 'a \<Rightarrow> 'a) \<Rightarrow> 'a list list list list \<Rightarrow> 'a list list list list \<Rightarrow>
   error + 'a list list list list" where
  "broadcast4 f = broadcast (broadcast (broadcast (broadcast (\<lambda>a b. Inr (f a b)))))"

definition map4 :: "('a \<Rightarrow> 'b) \<Rightarrow> 'a list list list list \<Rightarrow> 'b list list list list" where
  "map4 f = map (map (map (map f)))"

text \<open>\<^verbatim>\<open>alpha.unsqueeze(-1)\<close>: a new innermost axis of extent 1.\<close>

definition unsqueeze_last :: "'a list list list \<Rightarrow> 'a list list list list" where
  "unsqueeze_last a = map (map (map (\<lambda>v. [v]))) a"

text \<open>
  Lines 52 to 59, on the entries of the image and of the mask, both in the format with
  rounding \<open>rnd\<close>: \<^verbatim>\<open>image * alpha + (1 - alpha) * 0.5\<close>. The Python scalars \<^verbatim>\<open>1\<close> and
  \<^verbatim>\<open>0.5\<close> are exact in every binary format.
\<close>

definition mask_grey ::
  "rounding \<Rightarrow> fval list list list list \<Rightarrow> fval list list list list \<Rightarrow>
   error + fval list list list list" where
  "mask_grey rnd img alpha =
     (case broadcast4 (fmul rnd) img alpha of
        Inl e \<Rightarrow> Inl e
      | Inr ia \<Rightarrow>
          broadcast4 (fadd rnd) ia
            (map4 (\<lambda>v. fmul rnd v (Finite (1 / 2))) (map4 (\<lambda>v. fsub rnd (Finite 1) v) alpha)))"

definition apply_mask ::
  "rounding \<Rightarrow> fval list list list list \<Rightarrow> fval alpha_arg \<Rightarrow> error + fval list list list list" where
  "apply_mask rnd img alpha =
     (case alpha of
        NotATensor \<Rightarrow> Inl TypeError
      | Alpha3 a \<Rightarrow> mask_grey rnd img (unsqueeze_last a)
      | Alpha4 a \<Rightarrow> mask_grey rnd img a)"

text \<open>
  The mask arguments the node is meant for, against an image of shape \<open>(B, H, W, C)\<close>:
  shape \<open>(B, H, W)\<close> or \<open>(B, H, W, 1)\<close>; and the mask's entry at a pixel.
\<close>

definition alpha_has_shape :: "nat \<Rightarrow> nat \<Rightarrow> nat \<Rightarrow> 'a alpha_arg \<Rightarrow> bool" where
  "alpha_has_shape B H W alpha =
     (case alpha of
        NotATensor \<Rightarrow> False
      | Alpha3 a \<Rightarrow> has_shape3 B H W a
      | Alpha4 a \<Rightarrow> has_shape B H W 1 a)"

definition alpha_at :: "fval alpha_arg \<Rightarrow> nat \<Rightarrow> nat \<Rightarrow> nat \<Rightarrow> fval" where
  "alpha_at alpha b h w =
     (case alpha of
        NotATensor \<Rightarrow> NaN
      | Alpha3 a \<Rightarrow> a ! b ! h ! w
      | Alpha4 a \<Rightarrow> a ! b ! h ! w ! 0)"

text \<open>
  The value the code computes at one entry, from the image's entry \<open>v\<close> and the mask's
  entry \<open>al\<close>, each operation rounded.
\<close>

definition grey_entry :: "rounding \<Rightarrow> fval \<Rightarrow> fval \<Rightarrow> fval" where
  "grey_entry rnd v al =
     fadd rnd (fmul rnd v al) (fmul rnd (fsub rnd (Finite 1) al) (Finite (1 / 2)))"

text \<open>
  A rounding for the examples: exact up to the largest finite value of half precision,
  overflowing beyond it. On the values of the examples, all exact in half precision with
  exact results, it agrees with the rounding of that format.
\<close>

definition example_rounding :: rounding where
  "example_rounding x =
     (if \<bar>x\<bar> \<le> 65504 then Finite x else if 0 < x then PInf else NInf)"

section \<open>Example inputs\<close>

text \<open>
  A conditioning latent of shape \<open>(2, 1, 1, 2)\<close> in single precision on the CPU, and a
  forward call whose live input has batch size \<open>B\<close>, in half precision on the first GPU.
\<close>

definition example_latent :: "real tensor" where
  "example_latent = \<lparr>device = CPU, dtype = Float32, vals = [[[[1, 2]]], [[[3, 4]]]]\<rparr>"

definition example_params :: "nat \<Rightarrow> (real, unit) unet_params" where
  "example_params B =
     \<lparr>input = \<lparr>device = CUDA 0, dtype = Float16, vals = replicate B [[[0, 0]], [[0, 0]]]\<rparr>,
      timestep = replicate B 999,
      cdict = Map.empty,
      cond_or_uncond = [0]\<rparr>"

text \<open>
  A store with two handles: the base model at address 0, over base model 0, with one
  patch registered and a wrapper stage installed earlier; the auxiliary model at address
  1, over base model 1, whose state dict has two parameters. The forward state is a call
  counter with a log of the batch sizes the native forward has seen.
\<close>

definition example_native :: "(real, unit, nat list, nat) unet_apply" where
  "example_native x t kw seen = (Inr (length (vals x)), seen @ [length (vals x)])"

definition example_stage :: "(real, unit, nat \<times> nat list, nat) stage" where
  "example_stage =
     Stage ''params''
       (\<lambda>unet_apply params.
          unet_apply (input params) (timestep params)
            ((cdict params)(''control'' \<mapsto> OtherVal ())))"

text \<open>
  The same stage with its second parameter named \<^verbatim>\<open>args\<close>, and a stage that answers
  from a cache without entering the native forward.
\<close>

definition example_stage_args :: "(real, unit, nat \<times> nat list, nat) stage" where
  "example_stage_args = Stage ''args'' (body example_stage)"

definition example_stage_cached :: "(real, unit, nat \<times> nat list, nat) stage" where
  "example_stage_cached = Stage ''params'' (\<lambda>unet_apply params st. (Inr 0, st))"

definition example_heap_with ::
  "(real, unit, nat \<times> nat list, nat) stage option \<Rightarrow>
   (real, unit, nat \<times> nat list, nat, real list) heap" where
  "example_heap_with slot =
     \<lparr>patchers = (\<lambda>_. \<lparr>model = 1, patches = [], model_function_wrapper = None\<rparr>)
        (0 := \<lparr>model = 0,
               patches = [(''diffusion_model.out.2.bias'',
                           Patch ''diff'' \<lparr>wdevice = CPU, wdtype = Float32, wdata = [1]\<rparr> False)],
               model_function_wrapper = slot\<rparr>),
      base_models = (\<lambda>_. \<lparr>scale_factor = 2,
                            diffusion_model =
                              [(''input_blocks.0.0.weight'',
                                \<lparr>wdevice = CPU, wdtype = Float32, wdata = [1, 2]\<rparr>),
                               (''out.2.bias'',
                                \<lparr>wdevice = CPU, wdtype = Float32, wdata = [3]\<rparr>)]\<rparr>),
      next_addr = 2\<rparr>"

definition example_heap :: "(real, unit, nat \<times> nat list, nat, real list) heap" where
  "example_heap = example_heap_with (Some example_stage)"

definition example_env :: "real list env" where
  "example_env = \<lparr>torch_device = CUDA 0, unet_dtype = Float16, cast = (\<lambda>_ _ w. w)\<rparr>"

section \<open>Properties\<close>

lemma concat_nth_uniform:
  "list_all (\<lambda>a. length a = n) xss \<Longrightarrow> b < length xss \<Longrightarrow> k < n \<Longrightarrow>
   concat xss ! (b * n + k) = xss ! b ! k"
proof (induction xss arbitrary: b)
  case Nil
  then show ?case by simp
next
  case (Cons xs xss)
  show ?case
  proof (cases b)
    case 0
    with Cons.prems show ?thesis by (simp add: nth_append)
  next
    case (Suc b')
    with Cons.prems have "concat xss ! (b' * n + k) = xss ! b' ! k"
      by (intro Cons.IH) simp_all
    with Cons.prems Suc show ?thesis by (simp add: nth_append)
  qed
qed

lemma length_concat_uniform:
  "list_all (\<lambda>a. length a = n) xss \<Longrightarrow> length (concat xss) = n * length xss"
  by (induction xss) simp_all

lemma torch_cat_dim1_unsqueezed:
  "xs \<noteq> [] \<Longrightarrow> torch_cat_dim1 (map (\<lambda>c. [c]) xs) = Inr [concat xs]"
  by (cases xs) (simp_all add: torch_cat_dim1_def list_all_iff o_def)

lemma has_shape_scaled:
  "has_shape n1 n2 n3 n4 (map (map (map (map f))) v) = has_shape n1 n2 n3 n4 v"
  by (simp add: has_shape_def has_shape3_def list_all_iff)

lemma has_shape_concat:
  "has_shape B0 C H W v \<Longrightarrow> has_shape 1 (C * B0) H W [concat v]"
  by (auto simp add: has_shape_def has_shape3_def list_all_iff length_concat_uniform)

lemma has_shape_replicate:
  "has_shape n1 n2 n3 n4 (replicate n1 (replicate n2 (replicate n3 (replicate n4 x))))"
  by (simp add: has_shape_def has_shape3_def list_all_iff)

lemma mul_scalar_nth:
  "has_shape B0 C H W (vals x) \<Longrightarrow> b < B0 \<Longrightarrow> k < C \<Longrightarrow> i < H \<Longrightarrow> j < W \<Longrightarrow>
   vals (mul_scalar x s) ! b ! k ! i ! j = vals x ! b ! k ! i ! j * s"
  by (simp add: mul_scalar_def has_shape_def has_shape3_def list_all_length)

lemma concat_conds_of_eq:
  "vals samples \<noteq> [] \<Longrightarrow>
   concat_conds_of samples s = Inr (samples\<lparr>vals := [concat (vals (mul_scalar samples s))]\<rparr>)"
proof -
  assume "vals samples \<noteq> []"
  then have "torch_cat_dim1 (map (\<lambda>c. [c]) (vals (mul_scalar samples s))) =
        Inr [concat (vals (mul_scalar samples s))]"
    by (intro torch_cat_dim1_unsqueezed) (simp add: mul_scalar_def)
  then show ?thesis
    by (simp add: concat_conds_of_def Let_def) (simp add: mul_scalar_def)
qed

lemma concat_conds_of_empty:
  "vals samples = [] \<Longrightarrow> concat_conds_of samples s = Inl RuntimeError"
  by (simp add: concat_conds_of_def Let_def mul_scalar_def torch_cat_dim1_def)

subsection \<open>The scale law\<close>

text \<open>
  C2. For a conditioning latent of shape \<open>(B0, C, H, W)\<close> with at least one batch entry
  (\<^verbatim>\<open>torch.cat\<close> takes no empty list) and a scale factor \<open>s\<close>, the precomputed tensor is
  the latent multiplied elementwise by \<open>s\<close> with its batch entries concatenated along the
  channel axis: it has shape \<open>(1, C * B0, H, W)\<close>, channel \<open>b * C + k\<close> of its only batch
  entry is channel \<open>k\<close> of batch entry \<open>b\<close> of the latent times \<open>s\<close>, and device and dtype
  are the latent's. The witness is the instance \<open>(2, 4, 16, 16)\<close> with \<open>s = 0.18215\<close>, of
  shape \<open>(1, 8, 16, 16)\<close>.
\<close>

theorem concat_conds_scale_law:
  assumes shape: "has_shape B0 C H W (vals samples)" and nonempty: "0 < B0"
  shows "\<exists>cc. concat_conds_of samples s = Inr cc
           \<and> vals cc = [concat (map (map (map (map (\<lambda>v. v * s)))) (vals samples))]
           \<and> has_shape 1 (C * B0) H W (vals cc)
           \<and> (\<forall>b k i j. b < B0 \<and> k < C \<and> i < H \<and> j < W \<longrightarrow>
                 vals cc ! 0 ! (b * C + k) ! i ! j = vals samples ! b ! k ! i ! j * s)
           \<and> device cc = device samples \<and> dtype cc = dtype samples"
proof -
  let ?sc = "vals (mul_scalar samples s)"
  let ?cc = "samples\<lparr>vals := [concat ?sc]\<rparr>"
  from shape nonempty have ne: "vals samples \<noteq> []"
    by (auto simp add: has_shape_def)
  have sc_shape: "has_shape B0 C H W ?sc"
    using shape by (simp add: mul_scalar_def has_shape_scaled)
  have 1: "concat_conds_of samples s = Inr ?cc"
    using ne by (rule concat_conds_of_eq)
  have 2: "vals ?cc = [concat (map (map (map (map (\<lambda>v. v * s)))) (vals samples))]"
    by (simp add: mul_scalar_def)
  have 3: "has_shape 1 (C * B0) H W (vals ?cc)"
    using has_shape_concat [OF sc_shape] by simp
  have 4: "vals ?cc ! 0 ! (b * C + k) ! i ! j = vals samples ! b ! k ! i ! j * s"
    if "b < B0" "k < C" "i < H" "j < W" for b k i j
  proof -
    have "list_all (\<lambda>a. length a = C) ?sc" and "length ?sc = B0"
      using sc_shape by (simp_all add: has_shape_def has_shape3_def list_all_iff)
    then have "concat ?sc ! (b * C + k) = ?sc ! b ! k"
      using that by (intro concat_nth_uniform) simp_all
    then show ?thesis
      using mul_scalar_nth [OF shape that] by simp
  qed
  show ?thesis
    using 1 2 3 4 by (intro exI [of _ ?cc]) simp
qed

theorem concat_conds_scale_law_witness:
  "has_shape 2 4 16 16
     (vals \<lparr>device = CPU, dtype = Float32,
            vals = replicate 2 (replicate 4 (replicate 16 (replicate 16 (1::real))))\<rparr>)
   \<and> (\<exists>cc. concat_conds_of
               \<lparr>device = CPU, dtype = Float32,
                vals = replicate 2 (replicate 4 (replicate 16 (replicate 16 (1::real))))\<rparr>
               0.18215 = Inr cc
          \<and> has_shape 1 8 16 16 (vals cc)
          \<and> vals cc ! 0 ! 7 ! 15 ! 15 = 0.18215
          \<and> dtype cc = Float32)"
proof -
  let ?x = "\<lparr>device = CPU, dtype = Float32,
             vals = replicate 2 (replicate 4 (replicate 16 (replicate 16 (1::real))))\<rparr>"
  have shape: "has_shape 2 4 16 16 (vals ?x)"
    by (simp add: has_shape_replicate)
  from concat_conds_scale_law [OF shape, of "0.18215"]
  obtain cc where cc: "concat_conds_of ?x 0.18215 = Inr cc"
      "has_shape 1 (4 * 2) 16 16 (vals cc)"
      "\<forall>b k i j. b < 2 \<and> k < 4 \<and> i < 16 \<and> j < 16 \<longrightarrow>
         vals cc ! 0 ! (b * 4 + k) ! i ! j = vals ?x ! b ! k ! i ! j * 0.18215"
      "dtype cc = dtype ?x"
    by auto
  from cc(3) [rule_format, of 1 3 15 15] have "vals cc ! 0 ! 7 ! 15 ! 15 = 0.18215"
    by simp
  with shape cc show ?thesis
    by auto
qed

lemma concat_replicate_single: "concat (replicate n [x]) = replicate n x"
  by (induction n) simp_all

lemma apply_c_concat_eq:
  assumes one: "vals cc = [slice]" and live: "vals (input params) \<noteq> []"
  shows "apply_c_concat cc params =
         Inr (params\<lparr>cdict := (cdict params)(''c_concat'' \<mapsto>
                TensorVal (cc\<lparr>device := device (input params),
                              vals := replicate (length (vals (input params))) slice\<rparr>))\<rparr>)"
  using assms
  by (simp add: apply_c_concat_def Let_def to_device_def torch_cat_dim0_def
      concat_replicate_single)

lemma apply_c_concat_empty:
  "vals cc = [slice] \<Longrightarrow> vals (input params) = [] \<Longrightarrow>
   apply_c_concat cc params = Inl RuntimeError"
  by (simp add: apply_c_concat_def Let_def to_device_def torch_cat_dim0_def)

lemma concat_conds_of_batch:
  "concat_conds_of samples s = Inr cc \<Longrightarrow> \<exists>slice. vals cc = [slice]"
  by (cases "vals samples = []") (auto simp add: concat_conds_of_empty concat_conds_of_eq)

lemma concat_conds_of_tags:
  "concat_conds_of samples s = Inr cc \<Longrightarrow> device cc = device samples \<and> dtype cc = dtype samples"
  by (cases "vals samples = []") (auto simp add: concat_conds_of_empty concat_conds_of_eq)

subsection \<open>The broadcast law\<close>

text \<open>
  C3. For a forward call whose live input has batch size \<open>B\<close>, at least 1
  (\<^verbatim>\<open>torch.cat\<close> takes no empty list), and a precomputed tensor of batch size 1,
  \<^verbatim>\<open>apply_c_concat\<close> returns the params with a tensor stored under \<^verbatim>\<open>c_concat\<close> whose
  batch size is \<open>B\<close> and whose every batch slice is the single precomputed slice.
\<close>

theorem broadcast_law:
  assumes one: "length (vals cc) = 1" and live: "vals (input params) \<noteq> []"
  shows "\<exists>t. apply_c_concat cc params =
               Inr (params\<lparr>cdict := (cdict params)(''c_concat'' \<mapsto> TensorVal t)\<rparr>)
           \<and> length (vals t) = length (vals (input params))
           \<and> (\<forall>i. i < length (vals (input params)) \<longrightarrow> vals t ! i = vals cc ! 0)"
proof -
  from one obtain slice where slice: "vals cc = [slice]"
    by (cases "vals cc") simp_all
  let ?t = "cc\<lparr>device := device (input params),
               vals := replicate (length (vals (input params))) slice\<rparr>"
  show ?thesis
    using apply_c_concat_eq [OF slice live] slice by (intro exI [of _ ?t]) simp
qed

theorem broadcast_law_witness:
  "length (vals \<lparr>device = CPU, dtype = Float32, vals = [[[[2, 4]], [[6, 8::real]]]]\<rparr>) = 1
   \<and> vals (input (example_params 3)) \<noteq> []
   \<and> (\<exists>t. apply_c_concat \<lparr>device = CPU, dtype = Float32, vals = [[[[2, 4]], [[6, 8]]]]\<rparr>
              (example_params 3)
            = Inr ((example_params 3)\<lparr>cdict := [''c_concat'' \<mapsto> TensorVal t]\<rparr>)
          \<and> length (vals t) = 3
          \<and> vals t ! 0 = [[[2, 4]], [[6, 8]]]
          \<and> vals t ! 1 = [[[2, 4]], [[6, 8]]]
          \<and> vals t ! 2 = [[[2, 4]], [[6, 8]]])"
proof -
  let ?cc = "\<lparr>device = CPU, dtype = Float32, vals = [[[[2, 4]], [[6, 8::real]]]]\<rparr>"
  have one: "length (vals ?cc) = 1" by simp
  have live: "vals (input (example_params 3)) \<noteq> []" by (simp add: example_params_def)
  have len: "length (vals (input (example_params 3))) = 3" by (simp add: example_params_def)
  from broadcast_law [OF one live]
  obtain t where t: "apply_c_concat ?cc (example_params 3) =
        Inr ((example_params 3)\<lparr>cdict := (cdict (example_params 3))(''c_concat'' \<mapsto> TensorVal t)\<rparr>)"
      "length (vals t) = length (vals (input (example_params 3)))"
      "\<forall>i. i < length (vals (input (example_params 3))) \<longrightarrow> vals t ! i = vals ?cc ! 0"
    by blast
  have c: "cdict (example_params 3) = Map.empty" by (simp add: example_params_def)
  from t(3) len have "vals t ! 0 = [[[2, 4]], [[6, 8]]]" "vals t ! 1 = [[[2, 4]], [[6, 8]]]"
      "vals t ! 2 = [[[2, 4]], [[6, 8]]]"
    by simp_all
  with one live t(1,2) len c show ?thesis
    by (intro conjI exI [of _ t]) simp_all
qed

text \<open>
  C10. Whenever the precomputation of lines 96 to 98 yields a tensor, its batch extent is
  exactly 1; so at every forward call the floor division of the live batch size by it is
  the live batch size itself, with remainder 0, and the tensor injected for a live batch
  of at least one entry has exactly the live batch size.
\<close>

theorem broadcast_exact:
  assumes pre: "concat_conds_of samples s = Inr cc"
  shows "length (vals cc) = 1
       \<and> length (vals (input params)) div length (vals cc) = length (vals (input params))
       \<and> length (vals (input params)) mod length (vals cc) = 0
       \<and> (vals (input params) \<noteq> [] \<longrightarrow>
            (\<exists>params' t. apply_c_concat cc params = Inr params' \<and> c_concat_of params' = Some t
               \<and> length (vals t) = length (vals (input params))))"
proof -
  from pre obtain slice where slice: "vals cc = [slice]"
    using concat_conds_of_batch by blast
  show ?thesis
    using slice apply_c_concat_eq [OF slice, of params]
    by (simp add: c_concat_of_def)
qed

theorem broadcast_exact_witness:
  "concat_conds_of example_latent 2
     = Inr \<lparr>device = CPU, dtype = Float32, vals = [[[[2, 4]], [[6, 8]]]]\<rparr>
   \<and> length (vals \<lparr>device = CPU, dtype = Float32, vals = [[[[2, 4]], [[6, 8::real]]]]\<rparr>) = 1
   \<and> (5::nat) div 1 = 5
   \<and> (\<exists>params' t.
         apply_c_concat \<lparr>device = CPU, dtype = Float32, vals = [[[[2, 4]], [[6, 8]]]]\<rparr>
           (example_params 5) = Inr params'
       \<and> c_concat_of params' = Some t \<and> length (vals t) = 5)"
proof -
  let ?cc = "\<lparr>device = CPU, dtype = Float32, vals = [[[[2, 4]], [[6, 8::real]]]]\<rparr>"
  have pre: "concat_conds_of example_latent 2 = Inr ?cc"
    by (simp add: concat_conds_of_def mul_scalar_def torch_cat_dim1_def example_latent_def)
  have live: "vals (input (example_params 5)) \<noteq> []" "length (vals (input (example_params 5))) = 5"
    by (simp_all add: example_params_def)
  from broadcast_exact [OF pre, of "example_params 5"] live pre show ?thesis
    by simp
qed

subsection \<open>Placement and precision of the injected tensor\<close>

text \<open>
  C6, as the code has it. The precomputed tensor keeps the device and the dtype of the
  conditioning latent; at each forward call with a live batch of at least one entry the
  injected tensor is moved to the device of the live input (\<^verbatim>\<open>.to(sample.device)\<close>, at
  call time), and its dtype stays the latent's: no conversion to the live input's dtype
  is made.
\<close>

theorem injected_placement:
  assumes pre: "concat_conds_of samples s = Inr cc" and live: "vals (input params) \<noteq> []"
  shows "device cc = device samples \<and> dtype cc = dtype samples
       \<and> (\<exists>params' t. apply_c_concat cc params = Inr params' \<and> c_concat_of params' = Some t
             \<and> device t = device (input params) \<and> dtype t = dtype samples)"
proof -
  from pre obtain slice where slice: "vals cc = [slice]"
    using concat_conds_of_batch by blast
  show ?thesis
    using concat_conds_of_tags [OF pre] apply_c_concat_eq [OF slice live]
    by (simp add: c_concat_of_def)
qed

theorem injected_placement_witness:
  "concat_conds_of example_latent 2
     = Inr \<lparr>device = CPU, dtype = Float32, vals = [[[[2, 4]], [[6, 8]]]]\<rparr>
   \<and> vals (input (example_params 1)) \<noteq> []
   \<and> (\<exists>params' t.
         apply_c_concat \<lparr>device = CPU, dtype = Float32, vals = [[[[2, 4]], [[6, 8]]]]\<rparr>
           (example_params 1) = Inr params'
       \<and> c_concat_of params' = Some t \<and> device t = CUDA 0 \<and> dtype t = Float32)"
proof -
  let ?cc = "\<lparr>device = CPU, dtype = Float32, vals = [[[[2, 4]], [[6, 8::real]]]]\<rparr>"
  have pre: "concat_conds_of example_latent 2 = Inr ?cc"
    by (simp add: concat_conds_of_def mul_scalar_def torch_cat_dim1_def example_latent_def)
  have live: "vals (input (example_params 1)) \<noteq> []"
    by (simp add: example_params_def)
  have tags: "device (input (example_params 1)) = CUDA 0" "dtype example_latent = Float32"
    by (simp_all add: example_params_def example_latent_def)
  from injected_placement [OF pre live] pre live tags show ?thesis
    by simp
qed

text \<open>
  With the dtype of the live input in place of the latent's the property fails: a
  single-precision latent injected into a half-precision forward call stays in single
  precision.
\<close>

theorem injected_dtype_counterexample:
  "concat_conds_of example_latent 2
     = Inr \<lparr>device = CPU, dtype = Float32, vals = [[[[2, 4]], [[6, 8]]]]\<rparr>
   \<and> apply_c_concat \<lparr>device = CPU, dtype = Float32, vals = [[[[2, 4]], [[6, 8]]]]\<rparr>
        (example_params 1)
     = Inr ((example_params 1)\<lparr>cdict := [''c_concat'' \<mapsto>
              TensorVal \<lparr>device = CUDA 0, dtype = Float32, vals = [[[[2, 4]], [[6, 8]]]]\<rparr>]\<rparr>)
   \<and> dtype (input (example_params 1)) = Float16
   \<and> Float32 \<noteq> dtype (input (example_params 1))"
  by (simp add: concat_conds_of_def mul_scalar_def torch_cat_dim1_def apply_c_concat_def
      to_device_def torch_cat_dim0_def Let_def example_latent_def example_params_def)

subsection \<open>ICLight.apply on the object store\<close>

lemma update_fresh: "k \<notin> fst ` set al \<Longrightarrow> AList.update k v al = al @ [(k, v)]"
  by (induction al) auto

lemma fold_update_distinct:
  "distinct (map fst (acc @ items)) \<Longrightarrow>
   fold (\<lambda>(k, v) d. AList.update k v d) items acc = acc @ items"
proof (induction items arbitrary: acc)
  case Nil
  then show ?case by simp
next
  case (Cons kv items)
  obtain k v where kv: "kv = (k, v)" by (cases kv)
  from Cons.prems kv have fresh: "k \<notin> fst ` set acc" by auto
  from Cons.prems kv have "distinct (map fst ((acc @ [(k, v)]) @ items))" by simp
  then have "fold (\<lambda>(k, v) d. AList.update k v d) items (acc @ [(k, v)]) = (acc @ [(k, v)]) @ items"
    by (rule Cons.IH)
  with fresh kv show ?case by (simp add: update_fresh)
qed

lemma dict_of_items_distinct: "distinct (map fst items) \<Longrightarrow> dict_of_items items = items"
  using fold_update_distinct [of "[]" items] by (simp add: dict_of_items_def)

lemma ic_model_state_dict_of_distinct:
  assumes "distinct (map fst sd)"
  shows "ic_model_state_dict_of env sd = map (\<lambda>(key, value). (key, weight_to env value)) sd"
proof -
  have "map fst (map (\<lambda>(key, value). (key, weight_to env value)) sd) = map fst sd"
    by (induction sd) auto
  with assms have "distinct (map fst (map (\<lambda>(key, value). (key, weight_to env value)) sd))"
    by metis
  then show ?thesis
    unfolding ic_model_state_dict_of_def by (rule dict_of_items_distinct)
qed

lemma patches_of_distinct:
  assumes "distinct (map fst sd)"
  shows "patches_of sd =
         map (\<lambda>(key, value). (''diffusion_model.'' @ key,
                Patch ''diff'' value (key = ''input_blocks.0.0.weight''))) sd"
proof -
  have "map fst (map (\<lambda>(key, value). (''diffusion_model.'' @ key,
                Patch ''diff'' value (key = ''input_blocks.0.0.weight''))) sd)
        = map ((@) ''diffusion_model.'') (map fst sd)"
    by (induction sd) auto
  moreover have "distinct (map ((@) ''diffusion_model.'') (map fst sd))"
    using assms by (simp add: distinct_map inj_on_def)
  ultimately have "distinct (map fst (map (\<lambda>(key, value). (''diffusion_model.'' @ key,
                Patch ''diff'' value (key = ''input_blocks.0.0.weight''))) sd))"
    by metis
  then show ?thesis
    unfolding patches_of_def by (rule dict_of_items_distinct)
qed

lemma ICLight_apply_missing:
  "c_concat ''samples'' = None \<Longrightarrow> ICLight_apply env h m a c_concat = (Inl KeyError, h)"
  by (simp add: ICLight_apply_def)

lemma ICLight_apply_empty:
  "c_concat ''samples'' = Some samples \<Longrightarrow> vals samples = [] \<Longrightarrow>
   fst (ICLight_apply env h m a c_concat) = Inl RuntimeError"
  by (simp add: ICLight_apply_def clone_def Let_def concat_conds_of_empty)

lemma ICLight_apply_success:
  assumes samples: "c_concat ''samples'' = Some samples" and ne: "vals samples \<noteq> []"
    and ref: "a < next_addr h"
  shows "ICLight_apply env h m a c_concat =
    (Inr (next_addr h),
     h\<lparr>patchers := (patchers h)(next_addr h :=
          (patchers h m)\<lparr>
            patches := patches (patchers h m) @
               patches_of (ic_model_state_dict_of env
                 (diffusion_model (base_models h (model (patchers h a))))),
            model_function_wrapper := Some
              (Stage ''params''
                (wrapper_func
                  (samples\<lparr>vals := [concat (vals (mul_scalar samples
                       (scale_factor (base_models h (model (patchers h m))))))]\<rparr>)
                  (case model_function_wrapper (patchers h m) of
                     None \<Rightarrow> Stage ''params'' unet_dummy_apply | Some w \<Rightarrow> w)))\<rparr>),
        next_addr := Suc (next_addr h)\<rparr>)"
  using ref
  by (simp add: ICLight_apply_def samples clone_def Let_def concat_conds_of_eq [OF ne]
      set_model_unet_function_wrapper_def add_patches_def)
    (cases "patchers h m", simp)

lemma ICLight_apply_Inr:
  assumes "ICLight_apply env h m a c_concat = (Inr w, h')"
  shows "\<exists>samples. c_concat ''samples'' = Some samples \<and> vals samples \<noteq> []"
proof (cases "c_concat ''samples''")
  case None
  with assms show ?thesis by (simp add: ICLight_apply_missing)
next
  case (Some samples)
  show ?thesis
  proof (cases "vals samples = []")
    case True
    from ICLight_apply_empty [of c_concat samples env h m a, OF Some True] assms
    show ?thesis by simp
  next
    case False
    with Some show ?thesis by simp
  qed
qed

lemma example_apply_succeeds:
  "\<exists>h'. ICLight_apply example_env example_heap 0 1 [''samples'' \<mapsto> example_latent]
         = (Inr 2, h')"
proof -
  have "vals example_latent \<noteq> []" "(1::nat) < next_addr example_heap"
    by (simp_all add: example_latent_def example_heap_def example_heap_with_def)
  from ICLight_apply_success [where c_concat = "[''samples'' \<mapsto> example_latent]"
      and env = example_env and m = 0 and h = example_heap and samples = example_latent, OF _ this]
  have "fst (ICLight_apply example_env example_heap 0 1 [''samples'' \<mapsto> example_latent])
        = Inr (next_addr example_heap)"
    by simp
  then show ?thesis
    by (cases "ICLight_apply example_env example_heap 0 1 [''samples'' \<mapsto> example_latent]")
      (simp add: example_heap_def example_heap_with_def)
qed

lemma counted_once: "fst (snd (counted u x t kw (n, s))) = Suc n"
  by (simp add: counted_def split: prod.split)

lemma call_params_keyword_params:
  "second_param w = ''params'' \<Longrightarrow> call_params_keyword w u p st = body w u p st"
  by (simp add: call_params_keyword_def)

lemma call_params_keyword_other:
  "second_param w \<noteq> ''params'' \<Longrightarrow> call_params_keyword w u p st = (Inl TypeError, st)"
  by (simp add: call_params_keyword_def)

text \<open>
  Two stages installed one after the other over an empty slot, the second over the
  first: a forward call runs the injection of the second, then the injection of the
  first, which overwrites the entry just made, then the native forward, once.
\<close>

lemma stacked_stages:
  assumes one: "vals cc1 = [slice1]" and two: "vals cc2 = [slice2]"
    and live: "vals (input p) \<noteq> []"
    and keys: "cdict p ''x'' = None" "cdict p ''t'' = None"
  shows "wrapper_func cc2 (Stage ''params'' (wrapper_func cc1 (Stage ''params'' unet_dummy_apply)))
           (counted u) p (n, s)
         = counted u (input p) (timestep p)
             ((cdict p)(''c_concat'' \<mapsto>
                TensorVal (cc1\<lparr>device := device (input p),
                              vals := replicate (length (vals (input p))) slice1\<rparr>)))
             (n, s)"
    and "fst (snd (wrapper_func cc2
                     (Stage ''params'' (wrapper_func cc1 (Stage ''params'' unet_dummy_apply)))
                     (counted u) p (n, s)))
         = Suc n"
proof -
  let ?p2 = "p\<lparr>cdict := (cdict p)(''c_concat'' \<mapsto>
                TensorVal (cc2\<lparr>device := device (input p),
                              vals := replicate (length (vals (input p))) slice2\<rparr>))\<rparr>"
  have first: "apply_c_concat cc2 p = Inr ?p2"
    using two live by (rule apply_c_concat_eq)
  have live2: "vals (input ?p2) \<noteq> []"
    using live by simp
  have second: "apply_c_concat cc1 ?p2 =
      Inr (?p2\<lparr>cdict := (cdict ?p2)(''c_concat'' \<mapsto>
                TensorVal (cc1\<lparr>device := device (input ?p2),
                              vals := replicate (length (vals (input ?p2))) slice1\<rparr>))\<rparr>)"
    using one live2 by (rule apply_c_concat_eq)
  show eq: "wrapper_func cc2 (Stage ''params'' (wrapper_func cc1 (Stage ''params'' unet_dummy_apply)))
           (counted u) p (n, s)
         = counted u (input p) (timestep p)
             ((cdict p)(''c_concat'' \<mapsto>
                TensorVal (cc1\<lparr>device := device (input p),
                              vals := replicate (length (vals (input p))) slice1\<rparr>)))
             (n, s)"
    using keys
    by (simp add: wrapper_func_def first second unet_dummy_apply_def call_params_keyword_def)
  show "fst (snd (wrapper_func cc2
                     (Stage ''params'' (wrapper_func cc1 (Stage ''params'' unet_dummy_apply)))
                     (counted u) p (n, s)))
         = Suc n"
    unfolding eq by (rule counted_once)
qed

subsection \<open>The missing field\<close>

text \<open>
  C5. When the conditioning input has no \<^verbatim>\<open>samples\<close> field, \<^verbatim>\<open>ICLight.apply\<close> raises
  \<^verbatim>\<open>KeyError\<close> and leaves the whole store as it was: no handle is cloned (the next free
  address is unchanged), no patch is computed, and both input handles are untouched.
\<close>

theorem missing_field:
  "c_concat ''samples'' = None \<Longrightarrow> ICLight_apply env h m a c_concat = (Inl KeyError, h)"
  by (simp add: ICLight_apply_def)

theorem missing_field_witness:
  "[''noise_mask'' \<mapsto> example_latent] ''samples'' = None
   \<and> ICLight_apply example_env example_heap 0 1 [''noise_mask'' \<mapsto> example_latent]
       = (Inl KeyError, example_heap)"
  using missing_field [of "[''noise_mask'' \<mapsto> example_latent]" example_env example_heap 0 1]
  by simp

subsection \<open>The original handles\<close>

text \<open>
  C7. When \<^verbatim>\<open>ICLight.apply\<close> succeeds on allocated handles \<open>m\<close> and \<open>a\<close>, it returns a
  fresh handle, different from both, over the same base model as \<open>m\<close>; the handles \<open>m\<close>
  and \<open>a\<close>, as every handle allocated before the call, are the same after the call as
  before (patch overlay and wrapper slot included), and so is every base model with its
  weights.
\<close>

theorem original_untouched:
  assumes ok: "ICLight_apply env h m a c_concat = (Inr w, h')"
    and refs: "m < next_addr h" "a < next_addr h"
  shows "w = next_addr h \<and> w \<noteq> m \<and> w \<noteq> a
       \<and> patchers h' m = patchers h m
       \<and> patchers h' a = patchers h a
       \<and> (\<forall>x. x < next_addr h \<longrightarrow> patchers h' x = patchers h x)
       \<and> base_models h' = base_models h
       \<and> model (patchers h' w) = model (patchers h m)"
proof -
  from ICLight_apply_Inr [OF ok] obtain samples
    where samples: "c_concat ''samples'' = Some samples" and ne: "vals samples \<noteq> []"
    by blast
  note eq = ICLight_apply_success [where c_concat = c_concat and env = env and m = m,
      OF samples ne refs(2)]
  from ok refs show ?thesis
    unfolding eq by auto
qed

theorem original_untouched_witness:
  "0 < next_addr example_heap \<and> 1 < next_addr example_heap
   \<and> (\<exists>h'. ICLight_apply example_env example_heap 0 1 [''samples'' \<mapsto> example_latent]
             = (Inr 2, h')
          \<and> patchers h' 0 = patchers example_heap 0
          \<and> patchers h' 1 = patchers example_heap 1
          \<and> base_models h' = base_models example_heap
          \<and> model (patchers h' 2) = model (patchers example_heap 0))"
proof -
  have refs: "0 < next_addr example_heap" "1 < next_addr example_heap"
    by (simp_all add: example_heap_def example_heap_with_def)
  from example_apply_succeeds obtain h'
    where ok: "ICLight_apply example_env example_heap 0 1 [''samples'' \<mapsto> example_latent]
               = (Inr 2, h')"
    by blast
  from original_untouched [OF ok refs] ok refs show ?thesis
    by (intro conjI exI [of _ h']) simp_all
qed

subsection \<open>The registered patch set\<close>

text \<open>
  C4. When \<^verbatim>\<open>ICLight.apply\<close> succeeds, the returned handle's overlay is that of the base
  handle followed by the registered patch set \<open>P\<close>, which has exactly one entry per
  parameter of the auxiliary state dict (a dictionary: its keys are distinct), in order,
  keyed by the parameter name prefixed with \<^verbatim>\<open>diffusion_model.\<close>; every entry has kind
  \<^verbatim>\<open>diff\<close> and carries the parameter's weight moved to the working device and dtype,
  and \<^verbatim>\<open>pad_weight\<close> is true exactly for the entry of \<^verbatim>\<open>input_blocks.0.0.weight\<close>.
\<close>

theorem patch_set:
  assumes ok: "ICLight_apply env h m a c_concat = (Inr w, h')"
    and ref: "a < next_addr h"
    and sd: "diffusion_model (base_models h (model (patchers h a))) = sd"
    and keys: "distinct (map fst sd)"
  shows "\<exists>P. patches (patchers h' w) = patches (patchers h m) @ P
           \<and> length P = length sd
           \<and> map fst P = map (\<lambda>key. ''diffusion_model.'' @ key) (map fst sd)
           \<and> distinct (map fst P)
           \<and> (\<forall>i. i < length sd \<longrightarrow>
                 kind (snd (P ! i)) = ''diff''
               \<and> delta (snd (P ! i)) = weight_to env (snd (sd ! i))
               \<and> (pad_weight (snd (P ! i)) \<longleftrightarrow>
                    fst (P ! i) = ''diffusion_model.input_blocks.0.0.weight''))"
proof -
  let ?P = "map (\<lambda>(key, value). (''diffusion_model.'' @ key,
                Patch ''diff'' (weight_to env value) (key = ''input_blocks.0.0.weight''))) sd"
  from ICLight_apply_Inr [OF ok] obtain samples
    where samples: "c_concat ''samples'' = Some samples" and ne: "vals samples \<noteq> []"
    by blast
  note eq = ICLight_apply_success [where c_concat = c_concat and env = env and m = m,
      OF samples ne ref]
  have built: "patches_of (ic_model_state_dict_of env sd) = ?P"
  proof -
    have "distinct (map fst (map (\<lambda>(key, value). (key, weight_to env value)) sd))"
      using keys by (simp add: o_def case_prod_unfold)
    then show ?thesis
      using keys
      by (simp add: ic_model_state_dict_of_distinct patches_of_distinct o_def case_prod_unfold)
  qed
  have 1: "patches (patchers h' w) = patches (patchers h m) @ ?P"
    using ok unfolding eq by (auto simp add: sd built)
  have 2: "map fst ?P = map (\<lambda>key. ''diffusion_model.'' @ key) (map fst sd)"
    by (simp add: o_def case_prod_unfold)
  have 3: "distinct (map fst ?P)"
    unfolding 2 using keys by (simp add: distinct_map inj_on_def)
  have 4: "kind (snd (?P ! i)) = ''diff''
         \<and> delta (snd (?P ! i)) = weight_to env (snd (sd ! i))
         \<and> (pad_weight (snd (?P ! i)) \<longleftrightarrow>
              fst (?P ! i) = ''diffusion_model.input_blocks.0.0.weight'')"
    if "i < length sd" for i
    using that by (simp add: case_prod_unfold)
  show ?thesis
    using 1 2 3 4 by (intro exI [of _ ?P]) simp
qed

theorem patch_set_witness:
  "1 < next_addr example_heap
   \<and> distinct (map fst (diffusion_model (base_models example_heap (model (patchers example_heap 1)))))
   \<and> (\<exists>h' P. ICLight_apply example_env example_heap 0 1 [''samples'' \<mapsto> example_latent]
               = (Inr 2, h')
          \<and> patches (patchers h' 2) = patches (patchers example_heap 0) @ P
          \<and> map fst P = [''diffusion_model.input_blocks.0.0.weight'', ''diffusion_model.out.2.bias'']
          \<and> kind (snd (P ! 0)) = ''diff'' \<and> kind (snd (P ! 1)) = ''diff''
          \<and> pad_weight (snd (P ! 0)) \<and> \<not> pad_weight (snd (P ! 1))
          \<and> delta (snd (P ! 0)) = \<lparr>wdevice = CUDA 0, wdtype = Float16, wdata = [1, 2]\<rparr>)"
proof -
  let ?sd = "[(''input_blocks.0.0.weight'', \<lparr>wdevice = CPU, wdtype = Float32, wdata = [1, 2::real]\<rparr>),
              (''out.2.bias'', \<lparr>wdevice = CPU, wdtype = Float32, wdata = [3]\<rparr>)]"
  have ref: "1 < next_addr example_heap"
    by (simp add: example_heap_def example_heap_with_def)
  have sd: "diffusion_model (base_models example_heap (model (patchers example_heap 1))) = ?sd"
    by (simp add: example_heap_def example_heap_with_def)
  have keys: "distinct (map fst ?sd)"
    by simp
  from example_apply_succeeds obtain h'
    where ok: "ICLight_apply example_env example_heap 0 1 [''samples'' \<mapsto> example_latent]
               = (Inr 2, h')"
    by blast
  from patch_set [OF ok ref sd keys] obtain P
    where P: "patches (patchers h' 2) = patches (patchers example_heap 0) @ P"
      "map fst P = map (\<lambda>key. ''diffusion_model.'' @ key) (map fst ?sd)"
      "\<forall>i. i < length ?sd \<longrightarrow>
                 kind (snd (P ! i)) = ''diff''
               \<and> delta (snd (P ! i)) = weight_to example_env (snd (?sd ! i))
               \<and> (pad_weight (snd (P ! i)) \<longleftrightarrow>
                    fst (P ! i) = ''diffusion_model.input_blocks.0.0.weight'')"
    by blast
  from P(2) have names: "map fst P =
      [''diffusion_model.input_blocks.0.0.weight'', ''diffusion_model.out.2.bias'']"
    by simp
  then have "length (map fst P) = 2" by simp
  then have len: "length P = 2" by simp
  from names have "map fst P ! 0 = ''diffusion_model.input_blocks.0.0.weight''"
      "map fst P ! 1 = ''diffusion_model.out.2.bias''"
    by simp_all
  with len have fst0: "fst (P ! 0) = ''diffusion_model.input_blocks.0.0.weight''"
    and fst1: "fst (P ! 1) = ''diffusion_model.out.2.bias''"
    by simp_all
  from P(3) [rule_format, of 0] P(3) [rule_format, of 1] fst0 fst1
  have facts: "kind (snd (P ! 0)) = ''diff''" "kind (snd (P ! 1)) = ''diff''"
      "pad_weight (snd (P ! 0))" "\<not> pad_weight (snd (P ! 1))"
      "delta (snd (P ! 0)) = \<lparr>wdevice = CUDA 0, wdtype = Float16, wdata = [1, 2]\<rparr>"
    by (simp_all add: weight_to_def example_env_def)
  from ref sd keys ok P(1) names facts show ?thesis
    by (intro conjI exI [of _ h'] exI [of _ P]) simp_all
qed

subsection \<open>Wrapper composition\<close>

lemma forward_call_after_apply:
  assumes samples: "c_concat ''samples'' = Some samples" and ne: "vals samples \<noteq> []"
    and ref: "a < next_addr h"
  shows "fst (ICLight_apply env h m a c_concat) = Inr (next_addr h)"
    and "forward_call (snd (ICLight_apply env h m a c_concat)) (next_addr h) u p st
         = wrapper_func
             (samples\<lparr>vals := [concat (vals (mul_scalar samples
                  (scale_factor (base_models h (model (patchers h m))))))]\<rparr>)
             (case model_function_wrapper (patchers h m) of
                None \<Rightarrow> Stage ''params'' unet_dummy_apply | Some w \<Rightarrow> w)
             u p st"
  unfolding ICLight_apply_success [where c_concat = c_concat and env = env and m = m,
      OF samples ne ref]
  by (simp_all add: forward_call_def)

lemma wrapper_func_live:
  assumes "vals cc = [slice]" and "vals (input p) \<noteq> []"
  shows "wrapper_func cc X u p st
         = call_params_keyword X u
             (p\<lparr>cdict := (cdict p)(''c_concat'' \<mapsto>
                  TensorVal (cc\<lparr>device := device (input p),
                                vals := replicate (length (vals (input p))) slice\<rparr>))\<rparr>) st"
  by (simp add: wrapper_func_def apply_c_concat_eq [OF assms])

text \<open>
  C1, as the code has it. When \<^verbatim>\<open>ICLight.apply\<close> is given a conditioning latent with at
  least one batch entry, it succeeds and leaves in the slot of the returned handle a
  stage, with second parameter \<^verbatim>\<open>params\<close>, such that a forward call on that handle with a
  live batch of at least one entry first injects \<^verbatim>\<open>c_concat\<close> into the params and then:
  \<^item> behind a stage \<open>X\<close> found in the base handle's slot whose second parameter is named
    \<^verbatim>\<open>params\<close> (line 123 passes the params under that keyword), runs \<open>X\<close> on the injected
    params with the same native forward and the state untouched in between, and invokes
    the native forward exactly as often as \<open>X\<close> does on those params, adding no call of
    its own;
  \<^item> over an empty slot, when the conditioning mapping has no key \<^verbatim>\<open>x\<close> or \<^verbatim>\<open>t\<close>, invokes
    the native forward exactly once, with the call's input and timestep and the injected
    conditioning mapping as keyword arguments.
\<close>

theorem wrapper_composition:
  fixes h :: "('a::times, 'o, nat \<times> 'st, 'r, 'w) heap"
  assumes samples: "c_concat ''samples'' = Some samples" and ne: "vals samples \<noteq> []"
    and ref: "a < next_addr h"
  shows "\<exists>w h' cc.
      ICLight_apply env h m a c_concat = (Inr w, h')
    \<and> concat_conds_of samples (scale_factor (base_models h (model (patchers h m)))) = Inr cc
    \<and> (\<exists>W. model_function_wrapper (patchers h' w) = Some W \<and> second_param W = ''params'')
    \<and> (\<forall>u p st. vals (input p) \<noteq> [] \<longrightarrow>
          (\<exists>t. apply_c_concat cc p = Inr (p\<lparr>cdict := (cdict p)(''c_concat'' \<mapsto> TensorVal t)\<rparr>)
             \<and> (\<forall>X. model_function_wrapper (patchers h m) = Some X
                      \<and> second_param X = ''params'' \<longrightarrow>
                   forward_call h' w u p st
                   = body X u (p\<lparr>cdict := (cdict p)(''c_concat'' \<mapsto> TensorVal t)\<rparr>) st)
             \<and> (model_function_wrapper (patchers h m) = None
                   \<and> cdict p ''x'' = None \<and> cdict p ''t'' = None \<longrightarrow>
                   forward_call h' w u p st
                   = u (input p) (timestep p) ((cdict p)(''c_concat'' \<mapsto> TensorVal t)) st)))
    \<and> (\<forall>u0 p n s. vals (input p) \<noteq> [] \<and> model_function_wrapper (patchers h m) = None
                   \<and> cdict p ''x'' = None \<and> cdict p ''t'' = None \<longrightarrow>
          fst (snd (forward_call h' w (counted u0) p (n, s))) = Suc n)
    \<and> (\<forall>u0 p p' n s X.
          model_function_wrapper (patchers h m) = Some X \<and> second_param X = ''params''
          \<and> apply_c_concat cc p = Inr p' \<longrightarrow>
          fst (snd (forward_call h' w (counted u0) p (n, s)))
          = fst (snd (body X (counted u0) p' (n, s))))"
proof -
  let ?s = "scale_factor (base_models h (model (patchers h m)))"
  let ?cc = "samples\<lparr>vals := [concat (vals (mul_scalar samples ?s))]\<rparr>"
  let ?X = "case model_function_wrapper (patchers h m) of
              None \<Rightarrow> Stage ''params'' unet_dummy_apply | Some w \<Rightarrow> w"
  let ?W = "Stage ''params'' (wrapper_func ?cc ?X)"
  let ?w = "next_addr h"
  note eq = ICLight_apply_success [where c_concat = c_concat and env = env and m = m,
      OF samples ne ref]
  obtain h' where ok: "ICLight_apply env h m a c_concat = (Inr ?w, h')"
    and slot: "model_function_wrapper (patchers h' ?w) = Some ?W"
    unfolding eq by simp
  have call: "forward_call h' ?w u p st = wrapper_func ?cc ?X u p st" for u p st
    by (simp add: forward_call_def slot)
  have pre: "concat_conds_of samples ?s = Inr ?cc"
    using ne by (rule concat_conds_of_eq)
  have one: "vals ?cc = [concat (vals (mul_scalar samples ?s))]"
    by simp
  have installed: "\<exists>W. model_function_wrapper (patchers h' ?w) = Some W \<and> second_param W = ''params''"
    using slot by simp
  have stage: "\<exists>t. apply_c_concat ?cc p = Inr (p\<lparr>cdict := (cdict p)(''c_concat'' \<mapsto> TensorVal t)\<rparr>)
             \<and> (\<forall>X. model_function_wrapper (patchers h m) = Some X
                      \<and> second_param X = ''params'' \<longrightarrow>
                   forward_call h' ?w u p st
                   = body X u (p\<lparr>cdict := (cdict p)(''c_concat'' \<mapsto> TensorVal t)\<rparr>) st)
             \<and> (model_function_wrapper (patchers h m) = None
                   \<and> cdict p ''x'' = None \<and> cdict p ''t'' = None \<longrightarrow>
                   forward_call h' ?w u p st
                   = u (input p) (timestep p) ((cdict p)(''c_concat'' \<mapsto> TensorVal t)) st)"
    if live: "vals (input p) \<noteq> []" for u p st
  proof -
    let ?t = "?cc\<lparr>device := device (input p),
                  vals := replicate (length (vals (input p))) (concat (vals (mul_scalar samples ?s)))\<rparr>"
    have inj: "apply_c_concat ?cc p = Inr (p\<lparr>cdict := (cdict p)(''c_concat'' \<mapsto> TensorVal ?t)\<rparr>)"
      using apply_c_concat_eq [OF one live] .
    show ?thesis
      by (intro exI [of _ ?t])
        (simp add: inj call wrapper_func_def unet_dummy_apply_def call_params_keyword_def)
  qed
  have once_default: "fst (snd (forward_call h' ?w (counted u0) p (n, s))) = Suc n"
    if "vals (input p) \<noteq> []" "model_function_wrapper (patchers h m) = None"
      "cdict p ''x'' = None" "cdict p ''t'' = None" for u0 p n s
    using stage [OF that(1), of "counted u0" "(n, s)"] that(2-4)
    by (auto simp add: counted_once)
  have chain: "fst (snd (forward_call h' ?w (counted u0) p (n, s)))
               = fst (snd (body X (counted u0) p' (n, s)))"
    if "model_function_wrapper (patchers h m) = Some X" "second_param X = ''params''"
       "apply_c_concat ?cc p = Inr p'" for u0 p p' n s X
    using that by (simp add: call wrapper_func_def call_params_keyword_def)
  show ?thesis
    using ok pre installed stage once_default chain
    by (intro exI [of _ ?w] exI [of _ h'] exI [of _ ?cc]) blast
qed

theorem wrapper_composition_witness:
  "[''samples'' \<mapsto> example_latent] ''samples'' = Some example_latent
   \<and> vals example_latent \<noteq> [] \<and> 1 < next_addr example_heap
   \<and> vals (input (example_params 3)) \<noteq> []
   \<and> model_function_wrapper (patchers example_heap 0) = Some example_stage
   \<and> second_param example_stage = ''params''
   \<and> model_function_wrapper (patchers example_heap 1) = None
   \<and> cdict (example_params 3) ''x'' = None \<and> cdict (example_params 3) ''t'' = None
   \<and> (\<exists>w h'. ICLight_apply example_env example_heap 0 1 [''samples'' \<mapsto> example_latent]
                  = (Inr w, h')
          \<and> forward_call h' w (counted example_native) (example_params 3) (0, [])
              = (Inr 3, (1, [3])))
   \<and> (\<exists>w h'. ICLight_apply example_env example_heap 1 1 [''samples'' \<mapsto> example_latent]
                  = (Inr w, h')
          \<and> forward_call h' w (counted example_native) (example_params 3) (0, [])
              = (Inr 3, (1, [3])))"
proof -
  let ?c = "[''samples'' \<mapsto> example_latent]"
  let ?p = "example_params 3"
  have samples: "?c ''samples'' = Some example_latent" by simp
  have ne: "vals example_latent \<noteq> []" by (simp add: example_latent_def)
  have ref: "1 < next_addr example_heap" by (simp add: example_heap_def example_heap_with_def)
  have live: "vals (input ?p) \<noteq> []" by (simp add: example_params_def)
  have keys: "cdict ?p ''x'' = None" "cdict ?p ''t'' = None"
    by (simp_all add: example_params_def)
  have slot0: "model_function_wrapper (patchers example_heap 0) = Some example_stage"
    and slot1: "model_function_wrapper (patchers example_heap 1) = None"
    by (simp_all add: example_heap_def example_heap_with_def)
  have name: "second_param example_stage = ''params''"
    by (simp add: example_stage_def)
  have native: "counted example_native (input ?p) (timestep ?p) kw (0, []) = (Inr 3, (1, [3]))"
    for kw
    by (simp add: counted_def example_native_def example_params_def)
  have "\<exists>w h'. ICLight_apply example_env example_heap 0 1 ?c = (Inr w, h')
          \<and> forward_call h' w (counted example_native) ?p (0, []) = (Inr 3, (1, [3]))"
  proof -
    from wrapper_composition [where c_concat = ?c and env = example_env and m = 0,
        OF samples ne ref]
    obtain w h' cc where ok: "ICLight_apply example_env example_heap 0 1 ?c = (Inr w, h')"
      and stage: "\<forall>u p st. vals (input p) \<noteq> [] \<longrightarrow>
          (\<exists>t. apply_c_concat cc p = Inr (p\<lparr>cdict := (cdict p)(''c_concat'' \<mapsto> TensorVal t)\<rparr>)
             \<and> (\<forall>X. model_function_wrapper (patchers example_heap 0) = Some X
                      \<and> second_param X = ''params'' \<longrightarrow>
                   forward_call h' w u p st
                   = body X u (p\<lparr>cdict := (cdict p)(''c_concat'' \<mapsto> TensorVal t)\<rparr>) st)
             \<and> (model_function_wrapper (patchers example_heap 0) = None
                   \<and> cdict p ''x'' = None \<and> cdict p ''t'' = None \<longrightarrow>
                   forward_call h' w u p st
                   = u (input p) (timestep p) ((cdict p)(''c_concat'' \<mapsto> TensorVal t)) st))"
      by (elim exE conjE) (rule that, assumption+)
    from stage [rule_format, OF live, of "counted example_native" "(0, [])"] slot0 name
    obtain t where
      "forward_call h' w (counted example_native) ?p (0, []) =
       body example_stage (counted example_native)
         (?p\<lparr>cdict := (cdict ?p)(''c_concat'' \<mapsto> TensorVal t)\<rparr>) (0, [])"
      by blast
    then have "forward_call h' w (counted example_native) ?p (0, []) = (Inr 3, (1, [3]))"
      by (simp add: example_stage_def native)
    with ok show ?thesis by blast
  qed
  moreover have "\<exists>w h'. ICLight_apply example_env example_heap 1 1 ?c = (Inr w, h')
          \<and> forward_call h' w (counted example_native) ?p (0, []) = (Inr 3, (1, [3]))"
  proof -
    from wrapper_composition [where c_concat = ?c and env = example_env and m = 1,
        OF samples ne ref]
    obtain w h' cc where ok: "ICLight_apply example_env example_heap 1 1 ?c = (Inr w, h')"
      and stage: "\<forall>u p st. vals (input p) \<noteq> [] \<longrightarrow>
          (\<exists>t. apply_c_concat cc p = Inr (p\<lparr>cdict := (cdict p)(''c_concat'' \<mapsto> TensorVal t)\<rparr>)
             \<and> (\<forall>X. model_function_wrapper (patchers example_heap 1) = Some X
                      \<and> second_param X = ''params'' \<longrightarrow>
                   forward_call h' w u p st
                   = body X u (p\<lparr>cdict := (cdict p)(''c_concat'' \<mapsto> TensorVal t)\<rparr>) st)
             \<and> (model_function_wrapper (patchers example_heap 1) = None
                   \<and> cdict p ''x'' = None \<and> cdict p ''t'' = None \<longrightarrow>
                   forward_call h' w u p st
                   = u (input p) (timestep p) ((cdict p)(''c_concat'' \<mapsto> TensorVal t)) st))"
      by (elim exE conjE) (rule that, assumption+)
    from stage [rule_format, OF live, of "counted example_native" "(0, [])"] slot1 keys
    obtain t where
      "forward_call h' w (counted example_native) ?p (0, []) =
       counted example_native (input ?p) (timestep ?p)
         ((cdict ?p)(''c_concat'' \<mapsto> TensorVal t)) (0, [])"
      by blast
    then have "forward_call h' w (counted example_native) ?p (0, []) = (Inr 3, (1, [3]))"
      by (simp add: native)
    with ok show ?thesis by blast
  qed
  ultimately show ?thesis
    using samples ne ref live slot0 slot1 name keys by (intro conjI)
qed

text \<open>
  For every previously installed stage the property fails. A stage whose second parameter
  is named \<^verbatim>\<open>args\<close> serves the host's positional call, but behind the new stage it is
  never entered: the keyword call raises \<^verbatim>\<open>TypeError\<close> and the native forward is not
  invoked. A stage that answers from a cache is run, and the native forward is invoked
  zero times, not once. Over an empty slot, a conditioning mapping with a key \<^verbatim>\<open>x\<close>
  raises \<^verbatim>\<open>TypeError\<close> before the native forward.
\<close>

theorem wrapper_composition_counterexample:
  "fst (ICLight_apply example_env (example_heap_with (Some example_stage_args)) 0 1
          [''samples'' \<mapsto> example_latent]) = Inr 2
   \<and> forward_call (example_heap_with (Some example_stage_args)) 0
        (counted example_native) (example_params 3) (0, []) = (Inr 3, (1, [3]))
   \<and> forward_call
        (snd (ICLight_apply example_env (example_heap_with (Some example_stage_args)) 0 1
                [''samples'' \<mapsto> example_latent])) 2
        (counted example_native) (example_params 3) (0, []) = (Inl TypeError, (0, []))
   \<and> fst (ICLight_apply example_env (example_heap_with (Some example_stage_cached)) 0 1
          [''samples'' \<mapsto> example_latent]) = Inr 2
   \<and> forward_call
        (snd (ICLight_apply example_env (example_heap_with (Some example_stage_cached)) 0 1
                [''samples'' \<mapsto> example_latent])) 2
        (counted example_native) (example_params 3) (0, []) = (Inr 0, (0, []))
   \<and> fst (ICLight_apply example_env (example_heap_with None) 0 1
          [''samples'' \<mapsto> example_latent]) = Inr 2
   \<and> forward_call
        (snd (ICLight_apply example_env (example_heap_with None) 0 1
                [''samples'' \<mapsto> example_latent])) 2
        (counted example_native)
        ((example_params 3)\<lparr>cdict := [''x'' \<mapsto> OtherVal ()]\<rparr>) (0, [])
      = (Inl TypeError, (0, []))"
proof -
  let ?c = "[''samples'' \<mapsto> example_latent]"
  have samples: "?c ''samples'' = Some example_latent" by simp
  have ne: "vals example_latent \<noteq> []" by (simp add: example_latent_def)
  have ref: "1 < next_addr (example_heap_with slot)" for slot
    by (simp add: example_heap_with_def)
  have next2: "next_addr (example_heap_with slot) = 2" for slot
    by (simp add: example_heap_with_def)
  have slot0: "model_function_wrapper (patchers (example_heap_with slot) 0) = slot" for slot
    by (simp add: example_heap_with_def)
  have live: "vals (input (example_params 3)) \<noteq> []"
    "vals (input ((example_params 3)\<lparr>cdict := [''x'' \<mapsto> OtherVal ()]\<rparr>)) \<noteq> []"
    by (simp_all add: example_params_def)
  have native: "counted example_native (input (example_params 3)) (timestep (example_params 3)) kw
      (0, []) = (Inr 3, (1, [3]))" for kw
    by (simp add: counted_def example_native_def example_params_def)
  note run = forward_call_after_apply [where c_concat = ?c and env = example_env and m = 0,
      OF samples ne ref, unfolded next2 slot0]
  have 1: "forward_call (example_heap_with (Some example_stage_args)) 0
        (counted example_native) (example_params 3) (0, []) = (Inr 3, (1, [3]))"
    by (simp add: forward_call_def slot0 example_stage_args_def example_stage_def native)
  have 2: "forward_call
        (snd (ICLight_apply example_env (example_heap_with (Some example_stage_args)) 0 1 ?c)) 2
        (counted example_native) (example_params 3) (0, []) = (Inl TypeError, (0, []))"
    unfolding run
    by (subst wrapper_func_live [OF _ live(1)])
      (simp_all add: call_params_keyword_def example_stage_args_def)
  have 3: "forward_call
        (snd (ICLight_apply example_env (example_heap_with (Some example_stage_cached)) 0 1 ?c)) 2
        (counted example_native) (example_params 3) (0, []) = (Inr 0, (0, []))"
    unfolding run
    by (subst wrapper_func_live [OF _ live(1)])
      (simp_all add: call_params_keyword_def example_stage_cached_def)
  have 4: "forward_call
        (snd (ICLight_apply example_env (example_heap_with None) 0 1 ?c)) 2
        (counted example_native)
        ((example_params 3)\<lparr>cdict := [''x'' \<mapsto> OtherVal ()]\<rparr>) (0, [])
      = (Inl TypeError, (0, []))"
    unfolding run
    by (subst wrapper_func_live [OF _ live(2)])
      (simp_all add: call_params_keyword_def unet_dummy_apply_def)
  from run(1) 1 2 3 4 show ?thesis
    by (intro conjI)
qed

subsection \<open>The scoped override of the sampling flag\<close>

text \<open>
  C8. For a VAE whose first stage is an \<^verbatim>\<open>AutoencoderKL\<close>, \<^verbatim>\<open>VAEEncodeArgMax.encode\<close>
  runs the standard encode on the VAE with the sampling flag set to false, returns what
  it returns or raises what it raises, and leaves the flag at its original value on both
  exits, whatever the standard encode did to the VAE.
\<close>

theorem scoped_override:
  assumes kind: "first_stage_model v = AutoencoderKL"
  shows "encode super_encode v pixels
         = (fst (super_encode (v\<lparr>regularization_sample := False\<rparr>) pixels),
            (snd (super_encode (v\<lparr>regularization_sample := False\<rparr>) pixels))
              \<lparr>regularization_sample := regularization_sample v\<rparr>)
       \<and> regularization_sample (snd (encode super_encode v pixels)) = regularization_sample v
       \<and> (\<forall>e. fst (super_encode (v\<lparr>regularization_sample := False\<rparr>) pixels) = Inl e \<longrightarrow>
             fst (encode super_encode v pixels) = Inl e)
       \<and> (\<forall>r. fst (super_encode (v\<lparr>regularization_sample := False\<rparr>) pixels) = Inr r \<longrightarrow>
             fst (encode super_encode v pixels) = Inr r)"
  using kind by (simp add: encode_def split: prod.split)

theorem scoped_override_witness:
  "first_stage_model \<lparr>first_stage_model = AutoencoderKL, regularization_sample = True,
                       vae_rest = ()\<rparr> = AutoencoderKL
   \<and> encode (\<lambda>v p. (Inr (if regularization_sample v then ''sample'' else ''mode''),
                     v\<lparr>regularization_sample := False\<rparr>))
        \<lparr>first_stage_model = AutoencoderKL, regularization_sample = True, vae_rest = ()\<rparr> ()
     = (Inr ''mode'',
        \<lparr>first_stage_model = AutoencoderKL, regularization_sample = True, vae_rest = ()\<rparr>)
   \<and> encode (\<lambda>v p. (Inl (HostError ''out of memory'') :: error + string,
                     v\<lparr>regularization_sample := False\<rparr>))
        \<lparr>first_stage_model = AutoencoderKL, regularization_sample = True, vae_rest = ()\<rparr> ()
     = (Inl (HostError ''out of memory''),
        \<lparr>first_stage_model = AutoencoderKL, regularization_sample = True, vae_rest = ()\<rparr>)"
proof -
  let ?v = "\<lparr>first_stage_model = AutoencoderKL, regularization_sample = True, vae_rest = ()\<rparr>"
  have kind: "first_stage_model ?v = AutoencoderKL" by simp
  from scoped_override [OF kind,
      of "\<lambda>v p. (Inr (if regularization_sample v then ''sample'' else ''mode''),
                  v\<lparr>regularization_sample := False\<rparr>)" "()"]
    scoped_override [OF kind,
      of "\<lambda>v p. (Inl (HostError ''out of memory'') :: error + string,
                  v\<lparr>regularization_sample := False\<rparr>)" "()"]
  show ?thesis by simp
qed

subsection \<open>The mask law\<close>

lemma collect_all_Inr:
  "(\<And>x. x \<in> set xs \<Longrightarrow> f x = Inr (g x)) \<Longrightarrow> collect (map f xs) = Inr (map g xs)"
  by (induction xs) simp_all

lemma broadcast_single: "broadcast f xs [y] = collect (map (\<lambda>x. f x y) xs)"
proof (cases xs)
  case Nil
  then show ?thesis by (simp add: broadcast_def)
next
  case (Cons x xs')
  then show ?thesis by (cases xs') (simp_all add: broadcast_def)
qed

lemma broadcast_same:
  assumes "length xs = length ys"
    and "\<And>x y. (x, y) \<in> set (zip xs ys) \<Longrightarrow> f x y = Inr (g x y)"
  shows "broadcast f xs ys = Inr (map2 g xs ys)"
proof -
  have "collect (map (\<lambda>(x, y). f x y) (zip xs ys)) = Inr (map (\<lambda>(x, y). g x y) (zip xs ys))"
    by (rule collect_all_Inr) (use assms(2) in auto)
  with assms(1) show ?thesis by (simp add: broadcast_def)
qed

lemma broadcast_cell:
  assumes "length cell = 1"
  shows "broadcast (\<lambda>a b. Inr (f a b)) r cell = Inr (map (\<lambda>v. f v (hd cell)) r)"
proof -
  from assms obtain y where "cell = [y]"
    by (cases cell) simp_all
  then show ?thesis
    by (simp add: broadcast_single collect_all_Inr)
qed

lemma broadcast_rows:
  assumes "length iw = length aw" and "list_all (\<lambda>cell. length cell = 1) aw"
  shows "broadcast (broadcast (\<lambda>a b. Inr (f a b))) iw aw =
         Inr (map2 (\<lambda>r cell. map (\<lambda>v. f v (hd cell)) r) iw aw)"
  using assms
  by (intro broadcast_same) (auto simp add: list_all_iff broadcast_cell dest: set_zip_rightD)

lemma broadcast_planes:
  assumes "length ih = length ah"
    and "list_all (\<lambda>aw. length aw = W \<and> list_all (\<lambda>cell. length cell = 1) aw) ah"
    and "list_all (\<lambda>iw. length iw = W) ih"
  shows "broadcast (broadcast (broadcast (\<lambda>a b. Inr (f a b)))) ih ah =
         Inr (map2 (map2 (\<lambda>r cell. map (\<lambda>v. f v (hd cell)) r)) ih ah)"
proof (rule broadcast_same)
  show "length ih = length ah" by fact
next
  fix x y
  assume "(x, y) \<in> set (zip ih ah)"
  then have "x \<in> set ih" "y \<in> set ah"
    by (auto dest: set_zip_leftD set_zip_rightD)
  with assms(2,3) have "length x = length y" "list_all (\<lambda>cell. length cell = 1) y"
    by (auto simp add: list_all_iff)
  then show "broadcast (broadcast (\<lambda>a b. Inr (f a b))) x y =
      Inr (map2 (\<lambda>r cell. map (\<lambda>v. f v (hd cell)) r) x y)"
    by (rule broadcast_rows)
qed

lemma broadcast4_mask:
  assumes "has_shape B H W C x" and "has_shape B H W 1 a"
  shows "broadcast4 f x a =
         Inr (map2 (map2 (map2 (\<lambda>r cell. map (\<lambda>v. f v (hd cell)) r))) x a)"
  unfolding broadcast4_def
proof (rule broadcast_same)
  show "length x = length a"
    using assms by (simp add: has_shape_def)
next
  fix ih ah
  assume "(ih, ah) \<in> set (zip x a)"
  then have "ih \<in> set x" "ah \<in> set a"
    by (auto dest: set_zip_leftD set_zip_rightD)
  with assms have "length ih = length ah"
    "list_all (\<lambda>aw. length aw = W \<and> list_all (\<lambda>cell. length cell = 1) aw) ah"
    "list_all (\<lambda>iw. length iw = W) ih"
    by (auto simp add: has_shape_def has_shape3_def list_all_iff)
  then show "broadcast (broadcast (broadcast (\<lambda>a b. Inr (f a b)))) ih ah =
      Inr (map2 (map2 (\<lambda>r cell. map (\<lambda>v. f v (hd cell)) r)) ih ah)"
    by (rule broadcast_planes)
qed

lemma broadcast4_mask_shape:
  assumes "has_shape B H W C x" and "has_shape B H W 1 a"
  shows "has_shape B H W C (map2 (map2 (map2 (\<lambda>r cell. map (\<lambda>v. f v (hd cell)) r))) x a)"
  using assms
  by (auto simp add: has_shape_def has_shape3_def list_all_length)

lemma broadcast4_mask_nth:
  assumes "has_shape B H W C x" and "has_shape B H W 1 a"
    and "b < B" "h < H" "w < W" "c < C"
  shows "map2 (map2 (map2 (\<lambda>r cell. map (\<lambda>v. f v (hd cell)) r))) x a ! b ! h ! w ! c
         = f (x ! b ! h ! w ! c) (a ! b ! h ! w ! 0)"
proof -
  from assms have "length (a ! b ! h ! w) = 1"
    by (simp add: has_shape_def has_shape3_def list_all_length)
  then have "hd (a ! b ! h ! w) = a ! b ! h ! w ! 0"
    by (cases "a ! b ! h ! w") simp_all
  with assms show ?thesis
    by (simp add: has_shape_def has_shape3_def list_all_length)
qed

lemma has_shape_ext:
  assumes "has_shape B H W C x" and "has_shape B H W C y"
    and "\<And>b h w c. b < B \<Longrightarrow> h < H \<Longrightarrow> w < W \<Longrightarrow> c < C \<Longrightarrow>
           x ! b ! h ! w ! c = y ! b ! h ! w ! c"
  shows "x = y"
  using assms
  by (auto simp add: has_shape_def has_shape3_def list_all_length intro!: nth_equalityI)

lemma map4_shape: "has_shape B H W C (map4 f v) = has_shape B H W C v"
  by (simp add: map4_def has_shape_scaled)

lemma map4_nth:
  "has_shape B H W C v \<Longrightarrow> b < B \<Longrightarrow> h < H \<Longrightarrow> w < W \<Longrightarrow> c < C \<Longrightarrow>
   map4 f v ! b ! h ! w ! c = f (v ! b ! h ! w ! c)"
  by (simp add: map4_def has_shape_def has_shape3_def list_all_length)

lemma unsqueeze_last_shape: "has_shape3 B H W a \<Longrightarrow> has_shape B H W 1 (unsqueeze_last a)"
  by (simp add: unsqueeze_last_def has_shape_def has_shape3_def list_all_iff)

lemma unsqueeze_last_nth:
  "has_shape3 B H W a \<Longrightarrow> b < B \<Longrightarrow> h < H \<Longrightarrow> w < W \<Longrightarrow>
   unsqueeze_last a ! b ! h ! w ! 0 = a ! b ! h ! w"
  by (simp add: unsqueeze_last_def has_shape3_def list_all_length)

lemma mask_grey_eq:
  assumes img: "has_shape B H W C img" and a: "has_shape B H W 1 a"
  shows "\<exists>res. mask_grey rnd img a = Inr res \<and> has_shape B H W C res
           \<and> (\<forall>b h w c. b < B \<and> h < H \<and> w < W \<and> c < C \<longrightarrow>
                 res ! b ! h ! w ! c
                 = grey_entry rnd (img ! b ! h ! w ! c) (a ! b ! h ! w ! 0))"
proof -
  let ?half = "map4 (\<lambda>v. fmul rnd v (Finite (1 / 2))) (map4 (\<lambda>v. fsub rnd (Finite 1) v) a)"
  let ?ia = "map2 (map2 (map2 (\<lambda>r cell. map (\<lambda>v. fmul rnd v (hd cell)) r))) img a"
  let ?res = "map2 (map2 (map2 (\<lambda>r cell. map (\<lambda>v. fadd rnd v (hd cell)) r))) ?ia ?half"
  have half: "has_shape B H W 1 ?half"
    using a by (simp add: map4_shape)
  have ia: "has_shape B H W C ?ia"
    using img a by (rule broadcast4_mask_shape)
  have res: "has_shape B H W C ?res"
    using ia half by (rule broadcast4_mask_shape)
  have "broadcast4 (fmul rnd) img a = Inr ?ia"
    using img a by (rule broadcast4_mask)
  moreover have "broadcast4 (fadd rnd) ?ia ?half = Inr ?res"
    using ia half by (rule broadcast4_mask)
  ultimately have 1: "mask_grey rnd img a = Inr ?res"
    by (simp add: mask_grey_def)
  have 2: "?res ! b ! h ! w ! c = grey_entry rnd (img ! b ! h ! w ! c) (a ! b ! h ! w ! 0)"
    if "b < B" "h < H" "w < W" "c < C" for b h w c
  proof -
    have "?res ! b ! h ! w ! c = fadd rnd (?ia ! b ! h ! w ! c) (?half ! b ! h ! w ! 0)"
      using ia half that by (rule broadcast4_mask_nth)
    moreover have "?ia ! b ! h ! w ! c = fmul rnd (img ! b ! h ! w ! c) (a ! b ! h ! w ! 0)"
      using img a that by (rule broadcast4_mask_nth)
    moreover have "?half ! b ! h ! w ! 0
        = fmul rnd (fsub rnd (Finite 1) (a ! b ! h ! w ! 0)) (Finite (1 / 2))"
    proof -
      have inner: "has_shape B H W 1 (map4 (\<lambda>v. fsub rnd (Finite 1) v) a)"
        using a by (simp add: map4_shape)
      have "?half ! b ! h ! w ! 0
          = fmul rnd (map4 (\<lambda>v. fsub rnd (Finite 1) v) a ! b ! h ! w ! 0) (Finite (1 / 2))"
        using inner that(1-3) zero_less_one by (rule map4_nth)
      also have "map4 (\<lambda>v. fsub rnd (Finite 1) v) a ! b ! h ! w ! 0
          = fsub rnd (Finite 1) (a ! b ! h ! w ! 0)"
        using a that(1-3) zero_less_one by (rule map4_nth)
      finally show ?thesis .
    qed
    ultimately show ?thesis by (simp add: grey_entry_def)
  qed
  from 1 res 2 show ?thesis
    by (intro exI [of _ ?res]) simp
qed

lemma grey_entry_one:
  assumes zero: "rnd 0 = Finite 0" and exact: "\<And>x. v = Finite x \<Longrightarrow> rnd x = Finite x"
  shows "grey_entry rnd v (Finite 1) = v"
  using assms by (cases v) (simp_all add: grey_entry_def fsub_def)

lemma grey_entry_zero_finite:
  assumes "rnd 0 = Finite 0" "rnd 1 = Finite 1" "rnd (1 / 2) = Finite (1 / 2)"
  shows "grey_entry rnd (Finite x) (Finite 0) = Finite (1 / 2)"
  using assms by (simp add: grey_entry_def fsub_def)

lemma grey_entry_zero_other:
  assumes "\<And>x. v \<noteq> Finite x"
  shows "grey_entry rnd v (Finite 0) = NaN"
  using assms by (cases v) (auto simp add: grey_entry_def)

lemma example_rounding_exact: "\<bar>x\<bar> \<le> 65504 \<Longrightarrow> example_rounding x = Finite x"
  by (simp add: example_rounding_def)

text \<open>
  C9, as the code has it. For an image of shape \<open>(B, H, W, C)\<close> and a mask tensor of shape
  \<open>(B, H, W)\<close> or \<open>(B, H, W, 1)\<close>, \<^verbatim>\<open>apply_mask\<close> returns a tensor of the image's shape
  whose entry at \<open>(b, h, w, c)\<close> is \<open>image * alpha + (1 - alpha) * 0.5\<close> in the floating
  point arithmetic of the tensors, each operation rounded, with the mask's entry at
  \<open>(b, h, w)\<close> for every channel. For a mask that is 1 everywhere it is the image (whose
  entries are values of the format). For a mask that is 0 everywhere every entry whose
  image entry is finite is 0.5.
\<close>

theorem mask_law:
  assumes img: "has_shape B H W C img" and alpha: "alpha_has_shape B H W alpha"
  shows "\<exists>res. apply_mask rnd img alpha = Inr res \<and> has_shape B H W C res
           \<and> (\<forall>b h w c. b < B \<and> h < H \<and> w < W \<and> c < C \<longrightarrow>
                 res ! b ! h ! w ! c
                 = fadd rnd (fmul rnd (img ! b ! h ! w ! c) (alpha_at alpha b h w))
                     (fmul rnd (fsub rnd (Finite 1) (alpha_at alpha b h w)) (Finite (1 / 2))))
           \<and> ((\<forall>b h w. b < B \<and> h < H \<and> w < W \<longrightarrow> alpha_at alpha b h w = Finite 1)
                \<and> rnd 0 = Finite 0
                \<and> (\<forall>b h w c x. b < B \<and> h < H \<and> w < W \<and> c < C
                       \<and> img ! b ! h ! w ! c = Finite x \<longrightarrow> rnd x = Finite x)
                \<longrightarrow> res = img)
           \<and> ((\<forall>b h w. b < B \<and> h < H \<and> w < W \<longrightarrow> alpha_at alpha b h w = Finite 0)
                \<and> rnd 0 = Finite 0 \<and> rnd 1 = Finite 1 \<and> rnd (1 / 2) = Finite (1 / 2)
                \<longrightarrow> (\<forall>b h w c x. b < B \<and> h < H \<and> w < W \<and> c < C
                         \<and> img ! b ! h ! w ! c = Finite x \<longrightarrow>
                       res ! b ! h ! w ! c = Finite (1 / 2)))"
proof -
  obtain a where a: "has_shape B H W 1 a"
    and run: "apply_mask rnd img alpha = mask_grey rnd img a"
    and at: "\<And>b h w. b < B \<Longrightarrow> h < H \<Longrightarrow> w < W \<Longrightarrow> a ! b ! h ! w ! 0 = alpha_at alpha b h w"
  proof (cases alpha)
    case NotATensor
    with alpha show ?thesis by (simp add: alpha_has_shape_def)
  next
    case (Alpha3 a3)
    with alpha have a3: "has_shape3 B H W a3" by (simp add: alpha_has_shape_def)
    then have "has_shape B H W 1 (unsqueeze_last a3)" by (rule unsqueeze_last_shape)
    with Alpha3 a3 show ?thesis
      by (intro that [of "unsqueeze_last a3"])
        (simp_all add: unsqueeze_last_nth apply_mask_def alpha_at_def)
  next
    case (Alpha4 a4)
    with alpha have "has_shape B H W 1 a4" by (simp add: alpha_has_shape_def)
    with Alpha4 show ?thesis
      by (intro that [of a4]) (simp_all add: apply_mask_def alpha_at_def)
  qed
  from mask_grey_eq [OF img a, of rnd] obtain res
    where res: "mask_grey rnd img a = Inr res" "has_shape B H W C res"
      and entries: "\<forall>b h w c. b < B \<and> h < H \<and> w < W \<and> c < C \<longrightarrow>
                 res ! b ! h ! w ! c = grey_entry rnd (img ! b ! h ! w ! c) (a ! b ! h ! w ! 0)"
    by (elim exE conjE) (rule that, assumption+)
  have entry: "res ! b ! h ! w ! c = grey_entry rnd (img ! b ! h ! w ! c) (alpha_at alpha b h w)"
    if "b < B" "h < H" "w < W" "c < C" for b h w c
    using entries [rule_format, of b h w c] at [OF that(1-3)] that by simp
  have formula: "res ! b ! h ! w ! c
       = fadd rnd (fmul rnd (img ! b ! h ! w ! c) (alpha_at alpha b h w))
           (fmul rnd (fsub rnd (Finite 1) (alpha_at alpha b h w)) (Finite (1 / 2)))"
    if "b < B" "h < H" "w < W" "c < C" for b h w c
    using entry [OF that] by (simp add: grey_entry_def)
  have ones: "res = img"
    if one: "\<forall>b h w. b < B \<and> h < H \<and> w < W \<longrightarrow> alpha_at alpha b h w = Finite 1"
      and zero: "rnd 0 = Finite 0"
      and exact: "\<forall>b h w c x. b < B \<and> h < H \<and> w < W \<and> c < C
                       \<and> img ! b ! h ! w ! c = Finite x \<longrightarrow> rnd x = Finite x"
    using res(2) img
  proof (rule has_shape_ext)
    fix b h w c
    assume range: "b < B" "h < H" "w < W" "c < C"
    from one range have "alpha_at alpha b h w = Finite 1" by simp
    with entry [OF range]
    have "res ! b ! h ! w ! c = grey_entry rnd (img ! b ! h ! w ! c) (Finite 1)" by simp
    also have "\<dots> = img ! b ! h ! w ! c"
      using zero
    proof (rule grey_entry_one)
      fix x
      assume "img ! b ! h ! w ! c = Finite x"
      with exact range show "rnd x = Finite x" by blast
    qed
    finally show "res ! b ! h ! w ! c = img ! b ! h ! w ! c" .
  qed
  have zeros: "res ! b ! h ! w ! c = Finite (1 / 2)"
    if nought: "\<forall>b h w. b < B \<and> h < H \<and> w < W \<longrightarrow> alpha_at alpha b h w = Finite 0"
      and fixed: "rnd 0 = Finite 0" "rnd 1 = Finite 1" "rnd (1 / 2) = Finite (1 / 2)"
      and range: "b < B" "h < H" "w < W" "c < C"
      and finite: "img ! b ! h ! w ! c = Finite x" for b h w c x
  proof -
    from nought range have "alpha_at alpha b h w = Finite 0" by simp
    with entry [OF range] finite
    have "res ! b ! h ! w ! c = grey_entry rnd (Finite x) (Finite 0)" by simp
    with fixed show ?thesis by (simp add: grey_entry_zero_finite)
  qed
  have 1: "apply_mask rnd img alpha = Inr res"
    using run res(1) by simp
  have 2: "\<forall>b h w c. b < B \<and> h < H \<and> w < W \<and> c < C \<longrightarrow>
                 res ! b ! h ! w ! c
                 = fadd rnd (fmul rnd (img ! b ! h ! w ! c) (alpha_at alpha b h w))
                     (fmul rnd (fsub rnd (Finite 1) (alpha_at alpha b h w)) (Finite (1 / 2)))"
    using formula by blast
  have 3: "(\<forall>b h w. b < B \<and> h < H \<and> w < W \<longrightarrow> alpha_at alpha b h w = Finite 1)
                \<and> rnd 0 = Finite 0
                \<and> (\<forall>b h w c x. b < B \<and> h < H \<and> w < W \<and> c < C
                       \<and> img ! b ! h ! w ! c = Finite x \<longrightarrow> rnd x = Finite x)
                \<longrightarrow> res = img"
    using ones by blast
  have 4: "(\<forall>b h w. b < B \<and> h < H \<and> w < W \<longrightarrow> alpha_at alpha b h w = Finite 0)
                \<and> rnd 0 = Finite 0 \<and> rnd 1 = Finite 1 \<and> rnd (1 / 2) = Finite (1 / 2)
                \<longrightarrow> (\<forall>b h w c x. b < B \<and> h < H \<and> w < W \<and> c < C
                         \<and> img ! b ! h ! w ! c = Finite x \<longrightarrow>
                       res ! b ! h ! w ! c = Finite (1 / 2))"
    using zeros by blast
  from 1 res(2) 2 3 4 show ?thesis
    by (intro exI [of _ res] conjI)
qed

theorem mask_law_witness:
  "has_shape 1 1 2 2 [[[[Finite (1 / 4), Finite (3 / 4)], [Finite 1, PInf]]]]
   \<and> alpha_has_shape 1 1 2 (Alpha3 [[[Finite 1, Finite 0]]])
   \<and> alpha_has_shape 1 1 2 (Alpha4 [[[[Finite 1], [Finite 1]]]])
   \<and> alpha_has_shape 1 1 2 (Alpha3 [[[Finite 0, Finite 0]]])
   \<and> example_rounding 0 = Finite 0 \<and> example_rounding 1 = Finite 1
   \<and> example_rounding (1 / 2) = Finite (1 / 2)
   \<and> (\<exists>res. apply_mask example_rounding [[[[Finite (1 / 4), Finite (3 / 4)], [Finite 1, PInf]]]]
               (Alpha3 [[[Finite 1, Finite 0]]]) = Inr res
          \<and> has_shape 1 1 2 2 res
          \<and> res ! 0 ! 0 ! 0 ! 1 = Finite (3 / 4) \<and> res ! 0 ! 0 ! 1 ! 0 = Finite (1 / 2))
   \<and> apply_mask example_rounding [[[[Finite (1 / 4), Finite (3 / 4)], [Finite 1, PInf]]]]
        (Alpha4 [[[[Finite 1], [Finite 1]]]])
      = Inr [[[[Finite (1 / 4), Finite (3 / 4)], [Finite 1, PInf]]]]
   \<and> (\<exists>res. apply_mask example_rounding [[[[Finite (1 / 4), Finite (3 / 4)], [Finite 1, PInf]]]]
               (Alpha3 [[[Finite 0, Finite 0]]]) = Inr res
          \<and> res ! 0 ! 0 ! 0 ! 0 = Finite (1 / 2) \<and> res ! 0 ! 0 ! 0 ! 1 = Finite (1 / 2)
          \<and> res ! 0 ! 0 ! 1 ! 0 = Finite (1 / 2))"
proof -
  let ?img = "[[[[Finite (1 / 4), Finite (3 / 4)], [Finite 1, PInf]]]]"
  let ?mixed = "Alpha3 [[[Finite 1, Finite 0]]]"
  let ?ones = "Alpha4 [[[[Finite 1], [Finite 1]]]]"
  let ?zeros = "Alpha3 [[[Finite 0, Finite 0]]]"
  have img: "has_shape 1 1 2 2 ?img"
    by (simp add: has_shape_def has_shape3_def)
  have mixed: "alpha_has_shape 1 1 2 ?mixed"
    by (simp add: alpha_has_shape_def has_shape3_def)
  have ones: "alpha_has_shape 1 1 2 ?ones"
    by (simp add: alpha_has_shape_def has_shape_def has_shape3_def)
  have zeros: "alpha_has_shape 1 1 2 ?zeros"
    by (simp add: alpha_has_shape_def has_shape3_def)
  have r0: "example_rounding 0 = Finite 0" and r1: "example_rounding 1 = Finite 1"
    and rh: "example_rounding (1 / 2) = Finite (1 / 2)"
    by (simp_all add: example_rounding_def)
  have pixel: "b = 0 \<and> h = 0 \<and> (w = 0 \<or> w = 1)" if "b < 1 \<and> h < 1 \<and> w < 2" for b h w :: nat
    using that by auto
  have entry: "b = 0 \<and> h = 0 \<and> (w = 0 \<or> w = 1) \<and> (c = 0 \<or> c = 1)"
    if "b < 1 \<and> h < 1 \<and> w < 2 \<and> c < 2" for b h w c :: nat
    using that by auto
  have 1: "\<exists>res. apply_mask example_rounding ?img ?mixed = Inr res
          \<and> has_shape 1 1 2 2 res
          \<and> res ! 0 ! 0 ! 0 ! 1 = Finite (3 / 4) \<and> res ! 0 ! 0 ! 1 ! 0 = Finite (1 / 2)"
  proof -
    from mask_law [OF img mixed, of example_rounding] obtain res
      where res: "apply_mask example_rounding ?img ?mixed = Inr res" "has_shape 1 1 2 2 res"
        and entries: "\<forall>b h w c. b < 1 \<and> h < 1 \<and> w < 2 \<and> c < 2 \<longrightarrow>
                 res ! b ! h ! w ! c
                 = fadd example_rounding
                     (fmul example_rounding (?img ! b ! h ! w ! c) (alpha_at ?mixed b h w))
                     (fmul example_rounding
                        (fsub example_rounding (Finite 1) (alpha_at ?mixed b h w))
                        (Finite (1 / 2)))"
      by (elim exE conjE) (rule that, assumption+)
    from entries [rule_format, of 0 0 0 1] entries [rule_format, of 0 0 1 0]
    have "res ! 0 ! 0 ! 0 ! 1 = Finite (3 / 4)" "res ! 0 ! 0 ! 1 ! 0 = Finite (1 / 2)"
      by (simp_all add: alpha_at_def fsub_def example_rounding_def)
    with res show ?thesis by (intro exI [of _ res] conjI)
  qed
  have 2: "apply_mask example_rounding ?img ?ones = Inr ?img"
  proof -
    from mask_law [OF img ones, of example_rounding] obtain res
      where res: "apply_mask example_rounding ?img ?ones = Inr res"
        and same: "(\<forall>b h w. b < 1 \<and> h < 1 \<and> w < 2 \<longrightarrow> alpha_at ?ones b h w = Finite 1)
                \<and> example_rounding 0 = Finite 0
                \<and> (\<forall>b h w c x. b < 1 \<and> h < 1 \<and> w < 2 \<and> c < 2
                       \<and> ?img ! b ! h ! w ! c = Finite x \<longrightarrow> example_rounding x = Finite x)
                \<longrightarrow> res = ?img"
      by (elim exE conjE) (rule that, assumption+)
    have a: "\<forall>b h w. b < 1 \<and> h < 1 \<and> w < 2 \<longrightarrow> alpha_at ?ones b h w = Finite 1"
    proof (intro allI impI)
      fix b h w :: nat
      assume "b < 1 \<and> h < 1 \<and> w < 2"
      from pixel [OF this] show "alpha_at ?ones b h w = Finite 1"
        by (auto simp add: alpha_at_def)
    qed
    have e: "\<forall>b h w c x. b < 1 \<and> h < 1 \<and> w < 2 \<and> c < 2
                       \<and> ?img ! b ! h ! w ! c = Finite x \<longrightarrow> example_rounding x = Finite x"
    proof (intro allI impI)
      fix b h w c :: nat and x :: real
      assume asm: "b < 1 \<and> h < 1 \<and> w < 2 \<and> c < 2 \<and> ?img ! b ! h ! w ! c = Finite x"
      then have "b < 1 \<and> h < 1 \<and> w < 2 \<and> c < 2" by simp
      from entry [OF this] asm have "x = 1 / 4 \<or> x = 3 / 4 \<or> x = 1"
        by auto
      then show "example_rounding x = Finite x"
        by (auto simp add: example_rounding_def)
    qed
    from same a r0 e have "res = ?img" by blast
    with res show ?thesis by simp
  qed
  have 3: "\<exists>res. apply_mask example_rounding ?img ?zeros = Inr res
          \<and> res ! 0 ! 0 ! 0 ! 0 = Finite (1 / 2) \<and> res ! 0 ! 0 ! 0 ! 1 = Finite (1 / 2)
          \<and> res ! 0 ! 0 ! 1 ! 0 = Finite (1 / 2)"
  proof -
    from mask_law [OF img zeros, of example_rounding] obtain res
      where res: "apply_mask example_rounding ?img ?zeros = Inr res"
        and grey: "(\<forall>b h w. b < 1 \<and> h < 1 \<and> w < 2 \<longrightarrow> alpha_at ?zeros b h w = Finite 0)
                \<and> example_rounding 0 = Finite 0 \<and> example_rounding 1 = Finite 1
                \<and> example_rounding (1 / 2) = Finite (1 / 2)
                \<longrightarrow> (\<forall>b h w c x. b < 1 \<and> h < 1 \<and> w < 2 \<and> c < 2
                         \<and> ?img ! b ! h ! w ! c = Finite x \<longrightarrow>
                       res ! b ! h ! w ! c = Finite (1 / 2))"
      by (elim exE conjE) (rule that, assumption+)
    have a: "\<forall>b h w. b < 1 \<and> h < 1 \<and> w < 2 \<longrightarrow> alpha_at ?zeros b h w = Finite 0"
    proof (intro allI impI)
      fix b h w :: nat
      assume "b < 1 \<and> h < 1 \<and> w < 2"
      from pixel [OF this] show "alpha_at ?zeros b h w = Finite 0"
        by (auto simp add: alpha_at_def)
    qed
    from grey a r0 r1 rh
    have all: "\<forall>b h w c x. b < 1 \<and> h < 1 \<and> w < 2 \<and> c < 2
                         \<and> ?img ! b ! h ! w ! c = Finite x \<longrightarrow>
                       res ! b ! h ! w ! c = Finite (1 / 2)"
      by blast
    from all [rule_format, of 0 0 0 0 "1 / 4"] all [rule_format, of 0 0 0 1 "3 / 4"]
      all [rule_format, of 0 0 1 0 1]
    have "res ! 0 ! 0 ! 0 ! 0 = Finite (1 / 2)" "res ! 0 ! 0 ! 0 ! 1 = Finite (1 / 2)"
      "res ! 0 ! 0 ! 1 ! 0 = Finite (1 / 2)"
      by simp_all
    with res show ?thesis by (intro exI [of _ res] conjI)
  qed
  from img mixed ones zeros r0 r1 rh 1 2 3 show ?thesis
    by (intro conjI)
qed

text \<open>
  For every image the grey law fails: where the image holds an infinity or not a number,
  a mask that is 0 everywhere gives not a number (an infinity times zero), not 0.5.
\<close>

theorem mask_law_counterexample:
  "has_shape 1 1 1 3 [[[[PInf, NaN, Finite (1 / 4)]]]]
   \<and> alpha_has_shape 1 1 1 (Alpha3 [[[Finite 0]]])
   \<and> apply_mask example_rounding [[[[PInf, NaN, Finite (1 / 4)]]]] (Alpha3 [[[Finite 0]]])
      = Inr [[[[NaN, NaN, Finite (1 / 2)]]]]
   \<and> NaN \<noteq> Finite (1 / 2)"
  by (simp add: has_shape_def has_shape3_def alpha_has_shape_def apply_mask_def mask_grey_def
      broadcast4_def broadcast_def map4_def unsqueeze_last_def fsub_def example_rounding_def)

end
